theory Spec2Isabelle
  imports Main "HOL-Library.AList"
begin

section \<open>Data model of server.js\<close>

text \<open>
  A room of the server (server.js, lines 35-44 and 67-74):
  \<^verbatim>\<open>{ code, players: [socketId, ...], board: [null | 'X' | 'O', ...],
    currentPlayer: 'X' | 'O', gameActive: boolean, symbols: { socketId: 'X' | 'O' } }\<close>
  The markers \<open>'X'\<close> and \<open>'O'\<close> are \<open>MarkX\<close> and \<open>MarkO\<close>; a board cell is \<open>None\<close>
  for \<open>null\<close>. The object \<open>symbols\<close> is an association list, read with \<open>map_of\<close>,
  written with \<open>AList.update\<close> and \<open>AList.delete\<close>. A socket id is the string that
  Socket.IO gives the connection; none is the name of a property that objects
  inherit.
\<close>

datatype marker = MarkX | MarkO

type_synonym cell = "marker option"

type_synonym socket_id = string

record room =
  code :: string
  players :: "socket_id list"
  board :: "cell list"
  currentPlayer :: marker
  gameActive :: bool
  symbols :: "(socket_id \<times> marker) list"

text \<open>
  The global \<open>rooms\<close> is a JavaScript Map from code to room. It is modelled as the
  list of its rooms in insertion order (the order \<open>findPlayerRoom\<close> iterates in), the
  key of an entry being the \<open>code\<close> field of its room: the only \<open>rooms.set(code, room)\<close>
  of the source stores a room whose \<open>code\<close> field is that key, and no handler assigns
  the field afterwards. A room object found in the map is named by its position, so
  that a mutation of the object is an update at that position.
\<close>

fun firstIndex :: "('a \<Rightarrow> bool) \<Rightarrow> 'a list \<Rightarrow> nat option" where
  "firstIndex P [] = None"
| "firstIndex P (x # xs) = (if P x then Some 0 else map_option Suc (firstIndex P xs))"

definition rooms_has :: "room list \<Rightarrow> string \<Rightarrow> bool" where
  "rooms_has rooms c = (c \<in> set (map code rooms))"

definition rooms_get :: "room list \<Rightarrow> string \<Rightarrow> nat option" where
  "rooms_get rooms c = firstIndex (\<lambda>r. code r = c) rooms"

definition rooms_set :: "room list \<Rightarrow> room \<Rightarrow> room list" where
  "rooms_set rooms r =
     (if rooms_has rooms (code r) then map (\<lambda>q. if code q = code r then r else q) rooms
      else rooms @ [r])"

definition rooms_delete :: "room list \<Rightarrow> string \<Rightarrow> room list" where
  "rooms_delete rooms c = filter (\<lambda>r. code r \<noteq> c) rooms"

section \<open>Payloads\<close>

text \<open>
  The value a client sends with an event. Numbers are the integer-valued ones (the
  interface's \<open>cellIndex\<close> is an integer), strings are ASCII, an object is the list of
  its own properties; arrays and fractional numbers are left out. \<open>Thrown\<close> is a
  TypeError raised by the expression.
\<close>

datatype jsval = JUndefined | JNull | JBool bool | JNum int | JStr string
  | JObj "(string \<times> jsval) list"

datatype 'a eval = Thrown | Val 'a

text \<open>
  \<open>data.roomCode\<close> and \<open>data.cellIndex\<close>: reading a property of \<open>undefined\<close> or \<open>null\<close>
  throws; a number, a string or a boolean has no property of either name.
\<close>

fun getProp :: "jsval \<Rightarrow> string \<Rightarrow> jsval eval" where
  "getProp JUndefined k = Thrown"
| "getProp JNull k = Thrown"
| "getProp (JObj props) k = Val (case map_of props k of None \<Rightarrow> JUndefined | Some v \<Rightarrow> v)"
| "getProp v k = Val JUndefined"

text \<open>
  \<open>String.prototype.toUpperCase\<close> on strings of ASCII characters: the letters a to z
  become A to Z and nothing else changes. On other characters JavaScript's function
  also maps the letters beyond ASCII and may lengthen the string; this function does
  not follow it there, and what is stated of a string that a client sends is stated
  of the \<open>ascii\<close> ones.
\<close>

definition toUpperChar :: "char \<Rightarrow> char" where
  "toUpperChar c =
     (case map_of (zip ''abcdefghijklmnopqrstuvwxyz'' ''ABCDEFGHIJKLMNOPQRSTUVWXYZ'') c of
        Some u \<Rightarrow> u
      | None \<Rightarrow> c)"

definition toUpperCase :: "string \<Rightarrow> string" where
  "toUpperCase s = map toUpperChar s"


text \<open>
  \<open>v?.toUpperCase()\<close>: \<open>undefined\<close> (here \<open>None\<close>) when \<open>v\<close> is \<open>undefined\<close> or \<open>null\<close>,
  the upper-cased string when \<open>v\<close> is a string, and a TypeError otherwise, since
  \<open>toUpperCase\<close> is then not a function.
\<close>

fun optToUpperCase :: "jsval \<Rightarrow> string option eval" where
  "optToUpperCase JUndefined = Val None"
| "optToUpperCase JNull = Val None"
| "optToUpperCase (JStr s) = Val (Some (toUpperCase s))"
| "optToUpperCase v = Thrown"

section \<open>Room management\<close>

text \<open>
  \<open>generateRoomCode\<close> (lines 50-60). The tape holds the values that the successive
  calls of \<open>Math.floor(Math.random() * chars.length)\<close> yield, each below 36. The
  do-while loop has no bound in the source: \<open>None\<close> says that the loop has not
  returned within the draws of the tape.
\<close>

definition chars :: string where
  "chars = ''ABCDEFGHIJKLMNOPQRSTUVWXYZ0123456789''"

definition charAt :: "string \<Rightarrow> nat \<Rightarrow> string" where
  "charAt s i = (if i < length s then [s ! i] else [])"

fun drawCode :: "nat \<Rightarrow> nat list \<Rightarrow> string \<Rightarrow> (string \<times> nat list) option" where
  "drawCode 0 tape acc = Some (acc, tape)"
| "drawCode (Suc k) [] acc = None"
| "drawCode (Suc k) (d # tape) acc = drawCode k tape (acc @ charAt chars d)"

function generateRoomCode :: "room list \<Rightarrow> nat list \<Rightarrow> string option" where
  "generateRoomCode rooms tape =
     (case drawCode 6 tape [] of
        None \<Rightarrow> None
      | Some (c, rest) \<Rightarrow> if rooms_has rooms c then generateRoomCode rooms rest else Some c)"
  by pat_completeness auto
termination
proof (relation "measure (\<lambda>(rooms, tape). length tape)")
  show "wf (measure (\<lambda>(rooms, tape). length tape))"
    by simp
next
  fix rooms :: "room list" and tape :: "nat list" and p c rest
  assume drawn: "drawCode 6 tape [] = Some p" and p: "(c, rest) = p"
  have consumed: "drawCode k t acc = Some (c, rest) \<Longrightarrow> length rest + k = length t"
    for k t acc
    by (induction k t acc rule: drawCode.induct) auto
  from drawn p have "length rest + 6 = length tape"
    using consumed [of 6 tape "[]"] by simp
  then show "((rooms, rest), (rooms, tape)) \<in> measure (\<lambda>(rooms, tape). length tape)"
    by simp
qed

declare generateRoomCode.simps [simp del]

text \<open>\<open>createRoom\<close> (lines 65-78): the new room and the map with it set.\<close>

definition createRoom :: "room list \<Rightarrow> nat list \<Rightarrow> socket_id \<Rightarrow> (room list \<times> room) option" where
  "createRoom rooms tape socketId =
     (case generateRoomCode rooms tape of
        None \<Rightarrow> None
      | Some c \<Rightarrow>
          let r = \<lparr> code = c, players = [socketId], board = replicate 9 None,
                    currentPlayer = MarkX, gameActive = False,
                    symbols = AList.update socketId MarkX [] \<rparr>
          in Some (rooms_set rooms r, r))"

text \<open>\<open>getRoom\<close> (lines 83-85): the position of the room of the upper-cased code.\<close>

definition getRoom :: "room list \<Rightarrow> string \<Rightarrow> nat option" where
  "getRoom rooms c = rooms_get rooms (toUpperCase c)"

text \<open>\<open>findPlayerRoom\<close> (lines 90-97): the first room, in the map's order, whose
  players include the socket.\<close>

definition findPlayerRoom :: "room list \<Rightarrow> socket_id \<Rightarrow> nat option" where
  "findPlayerRoom rooms socketId = firstIndex (\<lambda>r. socketId \<in> set (players r)) rooms"

section \<open>Game logic\<close>

definition WINNING_COMBINATIONS :: "(nat \<times> nat \<times> nat) list" where
  "WINNING_COMBINATIONS =
     [(0, 1, 2), (3, 4, 5), (6, 7, 8),
      (0, 3, 6), (1, 4, 7), (2, 5, 8),
      (0, 4, 8), (2, 4, 6)]"

datatype outcome = Win marker | Draw | InProgress

text \<open>
  \<open>board[i]\<close> as \<open>checkWinner\<close> uses it: beyond the array JavaScript reads
  \<open>undefined\<close>, which like \<open>null\<close> is falsy and equal to no marker.
\<close>

definition cellAt :: "cell list \<Rightarrow> nat \<Rightarrow> cell" where
  "cellAt b i = (if i < length b then b ! i else None)"

fun checkCombos :: "cell list \<Rightarrow> (nat \<times> nat \<times> nat) list \<Rightarrow> marker option" where
  "checkCombos b [] = None"
| "checkCombos b ((i, j, k) # rest) =
     (case cellAt b i of
        None \<Rightarrow> checkCombos b rest
      | Some m \<Rightarrow>
          if cellAt b j = Some m \<and> cellAt b k = Some m then Some m else checkCombos b rest)"

text \<open>\<open>checkWinner\<close> (lines 121-136): \<open>'X'\<close> or \<open>'O'\<close>, \<open>'draw'\<close>, or \<open>null\<close>.\<close>

definition checkWinner :: "cell list \<Rightarrow> outcome" where
  "checkWinner b =
     (case checkCombos b WINNING_COMBINATIONS of
        Some m \<Rightarrow> Win m
      | None \<Rightarrow> if list_all (\<lambda>cell. cell \<noteq> None) b then Draw else InProgress)"

text \<open>\<open>resetGame\<close> (lines 141-145).\<close>

definition resetGame :: "room \<Rightarrow> room" where
  "resetGame r = r\<lparr> board := replicate 9 None, currentPlayer := MarkX, gameActive := True \<rparr>"

section \<open>The Socket.IO handlers\<close>

text \<open>
  The messages of the server. The texts of the \<open>error\<close> messages are, in the order of
  the constructors: "Sei gia in una stanza.", "Codice stanza non valido.", "Stanza non
  trovata.", "Stanza piena.", "Non sei in una stanza.", "La partita non e attiva.",
  "Non e il tuo turno.", "Mossa non valida.", "Servono 2 giocatori per iniziare.".
  The text of a \<open>gameStart\<close> is "La partita e iniziata! X inizia." after a join and
  "Nuova partita! X inizia." after a \<open>newGame\<close>.
\<close>

datatype error = AlreadyInSession | InvalidCode | NotFound | SessionFull | NotInSession
  | GameNotActive | NotYourTurn | InvalidMove | InsufficientPlayers

datatype start_text = GameStarted | NewGameStarted

datatype message =
    ErrorMsg error
  | RoomCreated string marker
  | JoinedRoom string marker
  | GameStart "cell list" marker start_text
  | MoveMade "cell list" marker jsval marker
  | GameEnd "cell list" outcome string
  | PlayerDisconnected

text \<open>
  What a handler does to the transport: \<open>socket.emit\<close> to the requesting socket,
  \<open>io.to(code).emit\<close> to the sockets of a channel, \<open>socket.join(code)\<close>.
\<close>

datatype effect = ToSocket socket_id message | ToRoom string message
  | JoinChannel socket_id string

text \<open>
  A handler returns, leaving the map of rooms and its effects in order; or it throws
  a TypeError that nothing catches, before any assignment and any effect; or, for
  \<open>createRoom\<close>, it has not returned within the draws supplied.
\<close>

datatype result = Returned "room list" "effect list" | UncaughtTypeError | NoReturn

definition reject :: "room list \<Rightarrow> socket_id \<Rightarrow> error \<Rightarrow> result" where
  "reject rooms sid e = Returned rooms [ToSocket sid (ErrorMsg e)]"

text \<open>\<open>socket.on('createRoom')\<close> (lines 158-175).\<close>

definition on_createRoom :: "room list \<Rightarrow> socket_id \<Rightarrow> nat list \<Rightarrow> result" where
  "on_createRoom rooms sid tape =
     (case findPlayerRoom rooms sid of
        Some existing \<Rightarrow> reject rooms sid AlreadyInSession
      | None \<Rightarrow>
          (case createRoom rooms tape sid of
             None \<Rightarrow> NoReturn
           | Some (rooms', r) \<Rightarrow>
               Returned rooms' [JoinChannel sid (code r), ToSocket sid (RoomCreated (code r) MarkX)]))"

text \<open>\<open>socket.on('joinRoom')\<close> (lines 181-230).\<close>

definition on_joinRoom :: "room list \<Rightarrow> socket_id \<Rightarrow> jsval \<Rightarrow> result" where
  "on_joinRoom rooms sid data =
     (case getProp data ''roomCode'' of
        Thrown \<Rightarrow> UncaughtTypeError
      | Val roomCode \<Rightarrow>
     (case optToUpperCase roomCode of
        Thrown \<Rightarrow> UncaughtTypeError
      | Val None \<Rightarrow> reject rooms sid InvalidCode
      | Val (Some c) \<Rightarrow>
          if c = [] \<or> length c \<noteq> 6 then reject rooms sid InvalidCode
          else
            (case getRoom rooms c of
               None \<Rightarrow> reject rooms sid NotFound
             | Some i \<Rightarrow>
                 if length (players (rooms ! i)) \<ge> 2 then reject rooms sid SessionFull
                 else
                   (case findPlayerRoom rooms sid of
                      Some existing \<Rightarrow> reject rooms sid AlreadyInSession
                    | None \<Rightarrow>
                        let r = (rooms ! i)\<lparr> players := players (rooms ! i) @ [sid],
                                   symbols := AList.update sid MarkO (symbols (rooms ! i)),
                                   gameActive := True \<rparr>
                        in Returned (rooms[i := r])
                             [JoinChannel sid (code r),
                              ToSocket sid (JoinedRoom (code r) MarkO),
                              ToRoom (code r) (GameStart (board r) (currentPlayer r) GameStarted)]))))"

text \<open>
  The guard \<open>cellIndex < 0 || cellIndex > 8 || room.board[cellIndex] !== null\<close> of
  \<open>makeMove\<close>, by the kind of \<open>cellIndex\<close>. A number \<open>n\<close> is compared as it is and
  names the element \<open>n\<close>. A string is a property key: one of "0" to "8" converts to
  that number and names that element; under any other string \<open>board\<close> has no element,
  so the third disjunct holds whatever the comparisons give. \<open>undefined\<close>, \<open>null\<close>, a
  boolean and an object convert to NaN, 0, 0 or 1, and NaN, all within the bounds,
  and their keys ("undefined", "null", "true", "false", "[object Object]") are
  properties of no array: the third disjunct holds.
  \<open>validCell\<close> is the element a passing \<open>cellIndex\<close> names, \<open>None\<close> when the guard
  rejects.
\<close>

fun arrayIndex :: "jsval \<Rightarrow> int option" where
  "arrayIndex (JNum n) = Some n"
| "arrayIndex (JStr s) =
     map_of [(''0'', 0), (''1'', 1), (''2'', 2), (''3'', 3), (''4'', 4), (''5'', 5),
             (''6'', 6), (''7'', 7), (''8'', 8)] s"
| "arrayIndex v = None"

definition validCell :: "cell list \<Rightarrow> jsval \<Rightarrow> nat option" where
  "validCell b cellIndex =
     (case arrayIndex cellIndex of
        None \<Rightarrow> None
      | Some n \<Rightarrow>
          if n < 0 \<or> n > 8 \<or> \<not> (nat n < length b \<and> b ! nat n = None) then None
          else Some (nat n))"

text \<open>The \<open>message\<close> of a \<open>gameEnd\<close>; the handler builds it for a win or a draw only.\<close>

definition gameEndMessage :: "outcome \<Rightarrow> string" where
  "gameEndMessage w =
     (case w of Draw \<Rightarrow> ''Pareggio!'' | Win MarkX \<Rightarrow> ''X ha vinto!'' | Win MarkO \<Rightarrow> ''O ha vinto!''
      | InProgress \<Rightarrow> [])"

text \<open>\<open>socket.on('makeMove')\<close> (lines 236-301).\<close>

definition on_makeMove :: "room list \<Rightarrow> socket_id \<Rightarrow> jsval \<Rightarrow> result" where
  "on_makeMove rooms sid data =
     (case findPlayerRoom rooms sid of
        None \<Rightarrow> reject rooms sid NotInSession
      | Some i \<Rightarrow>
          if \<not> gameActive (rooms ! i) then reject rooms sid GameNotActive
          else
            (case getProp data ''cellIndex'' of
               Thrown \<Rightarrow> UncaughtTypeError
             | Val cellIndex \<Rightarrow>
            (case map_of (symbols (rooms ! i)) sid of
               None \<Rightarrow> reject rooms sid NotYourTurn
             | Some playerSymbol \<Rightarrow>
                 if playerSymbol \<noteq> currentPlayer (rooms ! i) then reject rooms sid NotYourTurn
                 else
                   (case validCell (board (rooms ! i)) cellIndex of
                      None \<Rightarrow> reject rooms sid InvalidMove
                    | Some k \<Rightarrow>
                        let r = (rooms ! i)\<lparr> board := (board (rooms ! i))[k := Some playerSymbol],
                                   currentPlayer := (if playerSymbol = MarkX then MarkO else MarkX) \<rparr>;
                            winner = checkWinner (board r)
                        in if winner \<noteq> InProgress
                           then Returned (rooms[i := r\<lparr> gameActive := False \<rparr>])
                                  [ToRoom (code r) (GameEnd (board r) winner (gameEndMessage winner))]
                           else Returned (rooms[i := r])
                                  [ToRoom (code r)
                                     (MoveMade (board r) (currentPlayer r) cellIndex playerSymbol)]))))"

text \<open>\<open>socket.on('newGame')\<close> (lines 307-329).\<close>

definition on_newGame :: "room list \<Rightarrow> socket_id \<Rightarrow> result" where
  "on_newGame rooms sid =
     (case findPlayerRoom rooms sid of
        None \<Rightarrow> reject rooms sid NotInSession
      | Some i \<Rightarrow>
          if length (players (rooms ! i)) \<noteq> 2 then reject rooms sid InsufficientPlayers
          else
            let r = resetGame (rooms ! i)
            in Returned (rooms[i := r])
                 [ToRoom (code r) (GameStart (board r) (currentPlayer r) NewGameStarted)])"

text \<open>\<open>socket.on('disconnect')\<close> (lines 335-356).\<close>

definition on_disconnect :: "room list \<Rightarrow> socket_id \<Rightarrow> result" where
  "on_disconnect rooms sid =
     (case findPlayerRoom rooms sid of
        None \<Rightarrow> Returned rooms []
      | Some i \<Rightarrow>
          let r = (rooms ! i)\<lparr> players := filter (\<lambda>id. id \<noteq> sid) (players (rooms ! i)),
                     symbols := AList.delete sid (symbols (rooms ! i)),
                     gameActive := False \<rparr>;
              rooms' = rooms[i := r]
          in Returned (if length (players r) = 0 then rooms_delete rooms' (code r) else rooms')
               [ToRoom (code r) PlayerDisconnected])"

text \<open>
  The events of a connection and the states the server reaches from the empty map.
  A \<open>joinRoom\<close> whose code has characters beyond ASCII changes the map, if at all, as
  the \<open>joinRoom\<close> with the upper-cased string does, which is an event here: the
  states are the same.
\<close>

datatype event = CreateRoom "nat list" | JoinRoom jsval | MakeMove jsval | NewGame | Disconnect

fun handle :: "room list \<Rightarrow> socket_id \<Rightarrow> event \<Rightarrow> result" where
  "handle rooms sid (CreateRoom tape) = on_createRoom rooms sid tape"
| "handle rooms sid (JoinRoom data) = on_joinRoom rooms sid data"
| "handle rooms sid (MakeMove data) = on_makeMove rooms sid data"
| "handle rooms sid NewGame = on_newGame rooms sid"
| "handle rooms sid Disconnect = on_disconnect rooms sid"

inductive reachable :: "room list \<Rightarrow> bool" where
  initial: "reachable []"
| step: "reachable rooms \<Longrightarrow> handle rooms sid ev = Returned rooms' out \<Longrightarrow> reachable rooms'"

text \<open>A run of events from a state: the state after the last, when each returned.\<close>

fun run :: "room list \<Rightarrow> (socket_id \<times> event) list \<Rightarrow> room list option" where
  "run rooms [] = Some rooms"
| "run rooms ((sid, ev) # evs) =
     (case handle rooms sid ev of Returned rooms' out \<Rightarrow> run rooms' evs | _ \<Rightarrow> None)"

section \<open>Notions of the specification\<close>

text \<open>A triple of cells is completed by a marker: the words of the specification.\<close>

definition completed :: "cell list \<Rightarrow> nat \<times> nat \<times> nat \<Rightarrow> marker \<Rightarrow> bool" where
  "completed b t m =
     (case t of (i, j, k) \<Rightarrow> b ! i = Some m \<and> b ! j = Some m \<and> b ! k = Some m)"

text \<open>The other marker, as \<open>makeMove\<close> computes it for the next turn.\<close>

definition other :: "marker \<Rightarrow> marker" where
  "other m = (if m = MarkX then MarkO else MarkX)"

text \<open>A handler rejected the request: its only effect is an \<open>error\<close> message to a socket.\<close>

fun is_error_reply :: "effect list \<Rightarrow> bool" where
  "is_error_reply [ToSocket s (ErrorMsg e)] = True"
| "is_error_reply out = False"

text \<open>A sequence of moves, each of them accepted: the state after the last.\<close>

fun acceptedMoves :: "room list \<Rightarrow> (socket_id \<times> jsval) list \<Rightarrow> room list option" where
  "acceptedMoves rooms [] = Some rooms"
| "acceptedMoves rooms ((sid, data) # ms) =
     (case on_makeMove rooms sid data of
        Returned rooms' out \<Rightarrow> if is_error_reply out then None else acceptedMoves rooms' ms
      | _ \<Rightarrow> None)"

text \<open>
  The room that \<open>createRoom\<close> builds, and the rooms that \<open>joinRoom\<close> and \<open>disconnect\<close>
  leave: the record expressions of the handlers, named.
\<close>

definition fresh_room :: "string \<Rightarrow> socket_id \<Rightarrow> room" where
  "fresh_room c sid = \<lparr> code = c, players = [sid], board = replicate 9 None,
       currentPlayer = MarkX, gameActive = False, symbols = [(sid, MarkX)] \<rparr>"

definition joined :: "room \<Rightarrow> socket_id \<Rightarrow> room" where
  "joined q sid = q\<lparr> players := players q @ [sid],
                     symbols := AList.update sid MarkO (symbols q), gameActive := True \<rparr>"

definition left :: "room \<Rightarrow> socket_id \<Rightarrow> room" where
  "left q sid = q\<lparr> players := filter (\<lambda>id. id \<noteq> sid) (players q),
                   symbols := AList.delete sid (symbols q), gameActive := False \<rparr>"

text \<open>Every occupied cell of the first room holds the same marker in the second.\<close>

definition cells_kept :: "room \<Rightarrow> room \<Rightarrow> bool" where
  "cells_kept r r' =
     (\<forall>k < length (board r). board r ! k \<noteq> None \<longrightarrow> board r' ! k = board r ! k)"

text \<open>No two rooms of the map share a code; no socket is twice among the players.\<close>

definition codes_unique :: "room list \<Rightarrow> bool" where
  "codes_unique rooms = distinct (map code rooms)"


section \<open>Scenarios\<close>

text \<open>
  Payloads \<open>{roomCode: c}\<close> and \<open>{cellIndex: n}\<close>, and the states of one room
  "ABCDEF" (the draws 0 to 5) that sockets "a", "b" and "c" reach.
\<close>

definition roomCodeOf :: "string \<Rightarrow> jsval" where
  "roomCodeOf c = JObj [(''roomCode'', JStr c)]"

definition cellIndexOf :: "int \<Rightarrow> jsval" where
  "cellIndexOf n = JObj [(''cellIndex'', JNum n)]"

definition board_empty :: "cell list" where
  "board_empty = [None, None, None, None, None, None, None, None, None]"

definition board_first :: "cell list" where
  "board_first = [Some MarkX, None, None, None, None, None, None, None, None]"

definition board_second :: "cell list" where
  "board_second = [Some MarkX, None, None, Some MarkO, None, None, None, None, None]"

definition board_third :: "cell list" where
  "board_third = [Some MarkX, Some MarkX, None, Some MarkO, None, None, None, None, None]"

definition board_won :: "cell list" where
  "board_won = [Some MarkX, Some MarkX, Some MarkX, Some MarkO, Some MarkO, None, None, None,
                None]"

definition board_row2 :: "cell list" where
  "board_row2 = [Some MarkX, Some MarkO, Some MarkX,
                 Some MarkO, Some MarkO, Some MarkO,
                 Some MarkX, None, Some MarkX]"

definition board_draw :: "cell list" where
  "board_draw = [Some MarkX, Some MarkO, Some MarkX,
                 Some MarkX, Some MarkO, Some MarkO,
                 Some MarkO, Some MarkX, Some MarkX]"

definition board_open :: "cell list" where
  "board_open = [Some MarkX, None, None, None, Some MarkO, None, None, None, None]"

definition state_waiting :: "room list" where
  "state_waiting = [\<lparr> code = ''ABCDEF'', players = [''a''], board = board_empty,
      currentPlayer = MarkX, gameActive = False, symbols = [(''a'', MarkX)] \<rparr>]"

definition state_playing :: "room list" where
  "state_playing = [\<lparr> code = ''ABCDEF'', players = [''a'', ''b''], board = board_empty,
      currentPlayer = MarkX, gameActive = True,
      symbols = [(''a'', MarkX), (''b'', MarkO)] \<rparr>]"

definition state_moved :: "room list" where
  "state_moved = [\<lparr> code = ''ABCDEF'', players = [''a'', ''b''], board = board_first,
      currentPlayer = MarkO, gameActive = True,
      symbols = [(''a'', MarkX), (''b'', MarkO)] \<rparr>]"

definition state_two :: "room list" where
  "state_two = [\<lparr> code = ''ABCDEF'', players = [''a'', ''b''], board = board_second,
      currentPlayer = MarkX, gameActive = True,
      symbols = [(''a'', MarkX), (''b'', MarkO)] \<rparr>]"

definition state_three :: "room list" where
  "state_three = [\<lparr> code = ''ABCDEF'', players = [''a'', ''b''], board = board_third,
      currentPlayer = MarkO, gameActive = True,
      symbols = [(''a'', MarkX), (''b'', MarkO)] \<rparr>]"

definition moves_three :: "(socket_id \<times> jsval) list" where
  "moves_three = [(''a'', cellIndexOf 0), (''b'', cellIndexOf 3), (''a'', cellIndexOf 1)]"

definition state_four :: "room list" where
  "state_four = [\<lparr> code = ''ABCDEF'', players = [''a'', ''b''],
      board = [Some MarkX, Some MarkX, None, Some MarkO, Some MarkO, None, None, None, None],
      currentPlayer = MarkX, gameActive = True,
      symbols = [(''a'', MarkX), (''b'', MarkO)] \<rparr>]"

definition state_won :: "room list" where
  "state_won = [\<lparr> code = ''ABCDEF'', players = [''a'', ''b''], board = board_won,
      currentPlayer = MarkO, gameActive = False,
      symbols = [(''a'', MarkX), (''b'', MarkO)] \<rparr>]"

definition state_abandoned :: "room list" where
  "state_abandoned = [\<lparr> code = ''ABCDEF'', players = [''a''], board = board_first,
      currentPlayer = MarkO, gameActive = False, symbols = [(''a'', MarkX)] \<rparr>]"

definition state_rejoined :: "room list" where
  "state_rejoined = [\<lparr> code = ''ABCDEF'', players = [''a'', ''c''], board = board_first,
      currentPlayer = MarkO, gameActive = True,
      symbols = [(''a'', MarkX), (''c'', MarkO)] \<rparr>]"

definition state_creator_left :: "room list" where
  "state_creator_left = [\<lparr> code = ''ABCDEF'', players = [''b''], board = board_empty,
      currentPlayer = MarkX, gameActive = False, symbols = [(''b'', MarkO)] \<rparr>]"

definition state_both_O :: "room list" where
  "state_both_O = [\<lparr> code = ''ABCDEF'', players = [''b'', ''c''], board = board_empty,
      currentPlayer = MarkX, gameActive = True,
      symbols = [(''b'', MarkO), (''c'', MarkO)] \<rparr>]"

definition events_playing :: "(socket_id \<times> event) list" where
  "events_playing = [(''a'', CreateRoom [0, 1, 2, 3, 4, 5]),
                     (''b'', JoinRoom (roomCodeOf ''abcdef''))]"

section \<open>The scenarios, evaluated\<close>

lemma run_waiting: "run [] [(''a'', CreateRoom [0, 1, 2, 3, 4, 5])] = Some state_waiting"
  by code_simp

lemma run_playing: "run [] events_playing = Some state_playing"
  by code_simp

lemma run_moved: "run [] (events_playing @ [(''a'', MakeMove (cellIndexOf 0))]) = Some state_moved"
  by code_simp

lemma run_abandoned:
  "run [] (events_playing @ [(''a'', MakeMove (cellIndexOf 0)), (''b'', Disconnect)])
     = Some state_abandoned"
  by code_simp

lemma run_win:
  "run [] (events_playing @
      [(''a'', MakeMove (cellIndexOf 0)), (''b'', MakeMove (cellIndexOf 3)),
       (''a'', MakeMove (cellIndexOf 1)), (''b'', MakeMove (cellIndexOf 4))]) = Some state_four
   \<and> on_makeMove state_four ''a'' (cellIndexOf 2)
       = Returned state_won [ToRoom ''ABCDEF'' (GameEnd board_won (Win MarkX) ''X ha vinto!'')]"
  by code_simp

lemma run_creator_left:
  "run [] (events_playing @ [(''a'', Disconnect)]) = Some state_creator_left"
  by code_simp

section \<open>The board engine\<close>

lemma checkCombos_first:
  assumes "combos = pre @ t # post" and "length b = 9"
    and "\<forall>(i, j, k)\<in>set combos. i < 9 \<and> j < 9 \<and> k < 9"
    and "completed b t m" and "\<forall>u\<in>set pre. \<forall>m'. \<not> completed b u m'"
  shows "checkCombos b combos = Some m"
  using assms
proof (induction pre arbitrary: combos)
  case Nil
  then show ?case by (cases t) (auto simp: completed_def cellAt_def)
next
  case (Cons u pre)
  obtain i j k where u: "u = (i, j, k)" by (cases u) auto
  from Cons.prems u have bounds: "i < 9" "j < 9" "k < 9" by auto
  from Cons.prems have no: "\<forall>m'. \<not> completed b u m'" by simp
  have rest: "checkCombos b (pre @ t # post) = Some m"
    using Cons.IH [of "pre @ t # post"] Cons.prems by auto
  show ?case
  proof (cases "b ! i")
    case None
    then show ?thesis using Cons.prems u bounds rest by (simp add: cellAt_def)
  next
    case (Some m')
    with no u have "\<not> (b ! j = Some m' \<and> b ! k = Some m')" by (auto simp: completed_def)
    then show ?thesis using Cons.prems u bounds rest Some by (auto simp: cellAt_def)
  qed
qed

lemma checkCombos_none:
  assumes "length b = 9" and "\<forall>(i, j, k)\<in>set combos. i < 9 \<and> j < 9 \<and> k < 9"
    and "\<forall>u\<in>set combos. \<forall>m'. \<not> completed b u m'"
  shows "checkCombos b combos = None"
  using assms
proof (induction combos)
  case Nil
  then show ?case by simp
next
  case (Cons u combos)
  obtain i j k where u: "u = (i, j, k)" by (cases u) auto
  from Cons.prems u have bounds: "i < 9" "j < 9" "k < 9" by auto
  from Cons.prems have no: "\<forall>m'. \<not> completed b u m'" by simp
  have rest: "checkCombos b combos = None" using Cons by auto
  show ?case
  proof (cases "b ! i")
    case None
    then show ?thesis using Cons.prems u bounds rest by (simp add: cellAt_def)
  next
    case (Some m')
    with no u have "\<not> (b ! j = Some m' \<and> b ! k = Some m')" by (auto simp: completed_def)
    then show ?thesis using Cons.prems u bounds rest Some by (auto simp: cellAt_def)
  qed
qed

lemma combos_bounds: "\<forall>(i, j, k)\<in>set WINNING_COMBINATIONS. i < 9 \<and> j < 9 \<and> k < 9"
  by (simp add: WINNING_COMBINATIONS_def)

text \<open>
  Claim C1. On every board of 9 cells, \<open>checkWinner\<close> returns \<open>Win m\<close> for the marker
  \<open>m\<close> of the first completed triple in the order of \<open>WINNING_COMBINATIONS\<close> (the
  rows, then the columns, then the diagonals); it returns \<open>Draw\<close> when no triple is
  completed and every cell is occupied, and \<open>InProgress\<close> when no triple is completed
  and some cell is empty. \<open>checkWinner\<close> is a function of the board alone, defined
  on every board.
\<close>

theorem checkWinner_outcome:
  assumes "length b = 9"
  shows "WINNING_COMBINATIONS =
           [(0, 1, 2), (3, 4, 5), (6, 7, 8)] @ [(0, 3, 6), (1, 4, 7), (2, 5, 8)]
             @ [(0, 4, 8), (2, 4, 6)]
       \<and> (\<forall>pre t post m. WINNING_COMBINATIONS = pre @ t # post \<and> completed b t m
            \<and> (\<forall>u\<in>set pre. \<forall>m'. \<not> completed b u m') \<longrightarrow> checkWinner b = Win m)
       \<and> ((\<forall>u\<in>set WINNING_COMBINATIONS. \<forall>m'. \<not> completed b u m') \<and> (\<forall>i<9. b ! i \<noteq> None)
            \<longrightarrow> checkWinner b = Draw)
       \<and> ((\<forall>u\<in>set WINNING_COMBINATIONS. \<forall>m'. \<not> completed b u m') \<and> (\<exists>i<9. b ! i = None)
            \<longrightarrow> checkWinner b = InProgress)"
proof (intro conjI allI impI)
  show "WINNING_COMBINATIONS =
           [(0, 1, 2), (3, 4, 5), (6, 7, 8)] @ [(0, 3, 6), (1, 4, 7), (2, 5, 8)]
             @ [(0, 4, 8), (2, 4, 6)]"
    by (simp add: WINNING_COMBINATIONS_def)
next
  fix pre t post m
  assume "WINNING_COMBINATIONS = pre @ t # post \<and> completed b t m
            \<and> (\<forall>u\<in>set pre. \<forall>m'. \<not> completed b u m')"
  then have "checkCombos b WINNING_COMBINATIONS = Some m"
    using checkCombos_first [of WINNING_COMBINATIONS pre t post b m] assms combos_bounds
    by blast
  then show "checkWinner b = Win m" by (simp add: checkWinner_def)
next
  assume h: "(\<forall>u\<in>set WINNING_COMBINATIONS. \<forall>m'. \<not> completed b u m') \<and> (\<forall>i<9. b ! i \<noteq> None)"
  then have none: "checkCombos b WINNING_COMBINATIONS = None"
    using checkCombos_none assms combos_bounds by blast
  from h assms have "list_all (\<lambda>cell. cell \<noteq> None) b"
    by (auto simp: list_all_length)
  with none show "checkWinner b = Draw" by (simp add: checkWinner_def)
next
  assume h: "(\<forall>u\<in>set WINNING_COMBINATIONS. \<forall>m'. \<not> completed b u m') \<and> (\<exists>i<9. b ! i = None)"
  then have none: "checkCombos b WINNING_COMBINATIONS = None"
    using checkCombos_none assms combos_bounds by blast
  from h assms have "\<not> list_all (\<lambda>cell. cell \<noteq> None) b"
    by (auto simp: list_all_length)
  with none show "checkWinner b = InProgress" by (simp add: checkWinner_def)
qed

theorem checkWinner_outcome_witness:
  "length board_row2 = 9 \<and> completed board_row2 (3, 4, 5) MarkO
   \<and> checkWinner board_row2 = Win MarkO
   \<and> length board_draw = 9 \<and> checkWinner board_draw = Draw
   \<and> length board_open = 9 \<and> checkWinner board_open = InProgress"
proof -
  have len: "length board_row2 = 9" "length board_draw = 9" "length board_open = 9"
    by (simp_all add: board_row2_def board_draw_def board_open_def)
  have split: "WINNING_COMBINATIONS
      = [(0, 1, 2)] @ (3, 4, 5) # [(6, 7, 8), (0, 3, 6), (1, 4, 7), (2, 5, 8), (0, 4, 8), (2, 4, 6)]"
    by (simp add: WINNING_COMBINATIONS_def)
  have row2: "completed board_row2 (3, 4, 5) MarkO"
    by (simp add: completed_def board_row2_def)
  have first: "\<forall>u\<in>set [(0, 1, 2)]. \<forall>m'. \<not> completed board_row2 u m'"
    by (simp add: completed_def board_row2_def)
  have win: "checkWinner board_row2 = Win MarkO"
    using checkWinner_outcome [OF len(1)] split row2 first by blast
  have full: "\<forall>i<9. board_draw ! i \<noteq> None"
  proof (intro allI impI)
    fix i :: nat
    assume "i < 9"
    then have "i \<in> {0, 1, 2, 3, 4, 5, 6, 7, 8}" by auto
    then show "board_draw ! i \<noteq> None" by (auto simp: board_draw_def)
  qed
  have no_draw: "\<forall>u\<in>set WINNING_COMBINATIONS. \<forall>m'. \<not> completed board_draw u m'"
    by (simp add: WINNING_COMBINATIONS_def completed_def board_draw_def)
  have draw: "checkWinner board_draw = Draw"
    using checkWinner_outcome [OF len(2)] full no_draw by blast
  have hole: "\<exists>i<9. board_open ! i = None"
    by (rule exI [of _ 1]) (simp add: board_open_def)
  have no_open: "\<forall>u\<in>set WINNING_COMBINATIONS. \<forall>m'. \<not> completed board_open u m'"
    by (simp add: WINNING_COMBINATIONS_def completed_def board_open_def)
  have "checkWinner board_open = InProgress"
    using checkWinner_outcome [OF len(3)] hole no_open by blast
  with len row2 win draw show ?thesis by simp
qed

section \<open>Lists, positions and codes\<close>

lemma firstIndex_Some:
  "firstIndex P xs = Some i \<Longrightarrow> i < length xs \<and> P (xs ! i) \<and> (\<forall>j<i. \<not> P (xs ! j))"
proof (induction xs arbitrary: i)
  case Nil
  then show ?case by simp
next
  case (Cons x xs)
  show ?case
  proof (cases "P x")
    case True
    with Cons.prems show ?thesis by simp
  next
    case False
    with Cons.prems obtain i' where i': "firstIndex P xs = Some i'" "i = Suc i'" by auto
    from Cons.IH [OF i'(1)] False i'(2) show ?thesis
      by (auto simp: less_Suc_eq_0_disj)
  qed
qed

lemma firstIndex_None: "firstIndex P xs = None \<longleftrightarrow> (\<forall>x\<in>set xs. \<not> P x)"
  by (induction xs) auto

lemma firstIndex_less: "firstIndex P xs = Some i \<Longrightarrow> i < length xs"
  using firstIndex_Some [of P xs i] by simp

lemma findPlayerRoom_less: "findPlayerRoom rooms sid = Some i \<Longrightarrow> i < length rooms"
  by (simp add: findPlayerRoom_def firstIndex_less)

lemma getRoom_less: "getRoom rooms c = Some i \<Longrightarrow> i < length rooms"
  by (simp add: getRoom_def rooms_get_def firstIndex_less)

lemma firstIndex_map: "firstIndex P (map f xs) = firstIndex (\<lambda>x. P (f x)) xs"
  by (induction xs) auto

lemma findPlayerRoom_players:
  "map players rooms' = map players rooms \<Longrightarrow> findPlayerRoom rooms' sid = findPlayerRoom rooms sid"
  using firstIndex_map [of "\<lambda>ps. sid \<in> set ps" players rooms]
    firstIndex_map [of "\<lambda>ps. sid \<in> set ps" players rooms']
  by (simp add: findPlayerRoom_def)

lemma toUpperChar_idem: "toUpperChar (toUpperChar c) = toUpperChar c"
  by (simp add: toUpperChar_def)

lemma toUpperCase_idem: "toUpperCase (toUpperCase s) = toUpperCase s"
  by (simp add: toUpperCase_def toUpperChar_idem)

lemma toUpperCase_length: "length (toUpperCase s) = length s"
  by (simp add: toUpperCase_def)

lemma rooms_get_delete: "rooms_get (rooms_delete rooms c) c = None"
  by (simp add: rooms_get_def rooms_delete_def firstIndex_None)

lemma same_code_same_room:
  assumes "distinct (map code rooms)" and "r \<in> set rooms" and "r' \<in> set rooms"
    and "code r' = code r"
  shows "r' = r"
proof -
  from assms(1) have "inj_on code (set rooms)" by (simp add: distinct_map)
  with assms(2-4) show ?thesis by (auto dest: inj_onD)
qed

lemma in_set_update:
  assumes "q \<in> set (xs[i := y])"
  shows "q = y \<or> (\<exists>j. j < length xs \<and> j \<noteq> i \<and> q = xs ! j)"
proof -
  from assms obtain j where j: "j < length xs" "q = xs[i := y] ! j"
    by (auto simp: in_set_conv_nth)
  show ?thesis
  proof (cases "j = i")
    case True
    with j show ?thesis by simp
  next
    case False
    with j show ?thesis by auto
  qed
qed

lemma map_update_same:
  "i < length xs \<Longrightarrow> f y = f (xs ! i) \<Longrightarrow> map f (xs[i := y]) = map f xs"
  by (simp add: map_update list_update_same_conv)




lemma in_no_room:
  "findPlayerRoom rooms sid = None \<Longrightarrow> sid \<notin> set (concat (map players rooms))"
  by (auto simp: findPlayerRoom_def firstIndex_None)

lemma map_of_update_other: "p \<noteq> k \<Longrightarrow> map_of (AList.update k v al) p = map_of al p"
  by (simp add: update_conv')

lemma map_of_update_same: "map_of (AList.update k v al) k = Some v"
  by (simp add: update_conv')

section \<open>The code generator\<close>

lemma generateRoomCode_fresh:
  "generateRoomCode rooms tape = Some c \<Longrightarrow> \<not> rooms_has rooms c"
proof (induction rooms tape rule: generateRoomCode.induct)
  case (1 rooms tape)
  show ?case
  proof (cases "drawCode 6 tape []")
    case None
    with "1.prems" show ?thesis by (simp add: generateRoomCode.simps)
  next
    case (Some p)
    obtain c' rest where p: "p = (c', rest)" by (cases p) auto
    show ?thesis
    proof (cases "rooms_has rooms c'")
      case True
      with "1.prems" Some p have "generateRoomCode rooms rest = Some c"
        by (simp add: generateRoomCode.simps [of rooms tape])
      with "1.IH" Some p True show ?thesis by simp
    next
      case False
      with "1.prems" Some p show ?thesis by (simp add: generateRoomCode.simps [of rooms tape])
    qed
  qed
qed

lemma drawCode_chars:
  assumes "\<forall>d\<in>set tape. d < 36" and "drawCode k tape acc = Some (c, rest)"
  shows "length c = length acc + k \<and> set c \<subseteq> set acc \<union> set chars"
  using assms
proof (induction k tape acc rule: drawCode.induct)
  case (1 tape acc)
  then show ?case by auto
next
  case (2 k acc)
  then show ?case by simp
next
  case (3 k d tape acc)
  from "3.prems" have d: "d < 36" by simp
  have len: "length chars = 36" by (simp add: chars_def)
  with d have at: "charAt chars d = [chars ! d]" "chars ! d \<in> set chars"
    by (simp_all add: charAt_def)
  from "3.prems" have "length c = length (acc @ charAt chars d) + k
      \<and> set c \<subseteq> set (acc @ charAt chars d) \<union> set chars"
    using "3.IH" by simp
  with at show ?case by auto
qed

lemma generateRoomCode_format:
  assumes "\<forall>d\<in>set tape. d < 36" and "generateRoomCode rooms tape = Some c"
  shows "length c = 6 \<and> set c \<subseteq> set chars"
  using assms
proof (induction rooms tape rule: generateRoomCode.induct)
  case (1 rooms tape)
  from "1.prems"(2) obtain c' rest where drawn: "drawCode 6 tape [] = Some (c', rest)"
    by (cases "drawCode 6 tape []") (auto simp: generateRoomCode.simps [of rooms tape])
  have rest_sub: "set rest \<subseteq> set tape"
  proof -
    have "drawCode k t a = Some (x, r) \<Longrightarrow> set r \<subseteq> set t" for k t a x r
      by (induction k t a rule: drawCode.induct) auto
    with drawn show ?thesis by blast
  qed
  show ?case
  proof (cases "rooms_has rooms c'")
    case True
    with "1.prems"(2) drawn have "generateRoomCode rooms rest = Some c"
      by (simp add: generateRoomCode.simps [of rooms tape])
    moreover from "1.prems"(1) rest_sub have "\<forall>d\<in>set rest. d < 36" by blast
    ultimately show ?thesis using "1.IH" drawn True by simp
  next
    case False
    with "1.prems"(2) drawn have "c = c'"
      by (simp add: generateRoomCode.simps [of rooms tape])
    with drawCode_chars [OF "1.prems"(1) drawn] show ?thesis by simp
  qed
qed

section \<open>What each handler does to the map\<close>

lemma makeMove_accepted:
  assumes "on_makeMove rooms sid data = Returned rooms' out"
    and "\<not> is_error_reply out"
  shows "\<exists>i k m v. findPlayerRoom rooms sid = Some i \<and> i < length rooms
          \<and> gameActive (rooms ! i)
          \<and> map_of (symbols (rooms ! i)) sid = Some m \<and> currentPlayer (rooms ! i) = m
          \<and> getProp data ''cellIndex'' = Val v \<and> arrayIndex v = Some (int k)
          \<and> k < 9 \<and> k < length (board (rooms ! i)) \<and> board (rooms ! i) ! k = None
          \<and> (\<exists>r. rooms' = rooms[i := r]
                \<and> board r = (board (rooms ! i))[k := Some m]
                \<and> currentPlayer r = other m
                \<and> currentPlayer r \<noteq> currentPlayer (rooms ! i)
                \<and> code r = code (rooms ! i) \<and> players r = players (rooms ! i)
                \<and> symbols r = symbols (rooms ! i))"
proof -
  from assms obtain i where found: "findPlayerRoom rooms sid = Some i"
    by (auto simp: on_makeMove_def reject_def split: option.splits)
  then have i: "i < length rooms"
    using firstIndex_Some [of _ rooms i] by (simp add: findPlayerRoom_def)
  from assms found have active: "gameActive (rooms ! i)"
    by (auto simp: on_makeMove_def reject_def split: if_splits)
  from assms found active obtain v where v: "getProp data ''cellIndex'' = Val v"
    by (auto simp: on_makeMove_def reject_def split: eval.splits)
  from assms found active v obtain m where m: "map_of (symbols (rooms ! i)) sid = Some m"
    by (auto simp: on_makeMove_def reject_def split: option.splits)
  from assms found active v m have turn: "currentPlayer (rooms ! i) = m"
    by (auto simp: on_makeMove_def reject_def split: if_splits)
  from assms found active v m turn obtain k where k: "validCell (board (rooms ! i)) v = Some k"
    by (auto simp: on_makeMove_def reject_def split: option.splits)
  then have cell: "arrayIndex v = Some (int k)" "k < 9" "k < length (board (rooms ! i))"
    "board (rooms ! i) ! k = None"
    by (auto simp: validCell_def split: option.splits if_splits)
  define r where "r = (rooms ! i)\<lparr> board := (board (rooms ! i))[k := Some m],
                                  currentPlayer := (if m = MarkX then MarkO else MarkX) \<rparr>"
  have "rooms' = rooms[i := r] \<or> rooms' = rooms[i := r\<lparr> gameActive := False \<rparr>]"
    using assms(1) found active v m turn k
    by (auto simp: on_makeMove_def Let_def r_def split: if_splits)
  then obtain r' where r': "rooms' = rooms[i := r']" "r' = r \<or> r' = r\<lparr> gameActive := False \<rparr>"
    by blast
  then have "board r' = (board (rooms ! i))[k := Some m]"
    "currentPlayer r' = other m"
    "currentPlayer r' \<noteq> currentPlayer (rooms ! i)"
    "code r' = code (rooms ! i)" "players r' = players (rooms ! i)"
    "symbols r' = symbols (rooms ! i)"
    using turn by (auto simp: r_def other_def split: if_splits)
  with found i active m turn v cell r'(1) show ?thesis by blast
qed

lemma makeMove_applied:
  assumes found: "findPlayerRoom rooms sid = Some i" and active: "gameActive (rooms ! i)"
    and v: "getProp data ''cellIndex'' = Val v"
    and m: "map_of (symbols (rooms ! i)) sid = Some m" and turn: "m = currentPlayer (rooms ! i)"
    and named: "arrayIndex v = Some (int k)" and k: "k \<le> 8" "k < length (board (rooms ! i))"
    and free: "board (rooms ! i) ! k = None"
  shows "on_makeMove rooms sid data =
     (if checkWinner ((board (rooms ! i))[k := Some m]) = InProgress
      then Returned (rooms[i := (rooms ! i)\<lparr> board := (board (rooms ! i))[k := Some m],
                                 currentPlayer := other m \<rparr>])
             [ToRoom (code (rooms ! i))
                (MoveMade ((board (rooms ! i))[k := Some m]) (other m) v m)]
      else Returned (rooms[i := (rooms ! i)\<lparr> board := (board (rooms ! i))[k := Some m],
                                 currentPlayer := other m, gameActive := False \<rparr>])
             [ToRoom (code (rooms ! i))
                (GameEnd ((board (rooms ! i))[k := Some m])
                   (checkWinner ((board (rooms ! i))[k := Some m]))
                   (gameEndMessage (checkWinner ((board (rooms ! i))[k := Some m]))))])"
proof -
  from named k free have "validCell (board (rooms ! i)) v = Some k"
    by (simp add: validCell_def)
  with found active v m turn show ?thesis
    by (simp add: on_makeMove_def Let_def other_def)
qed

lemma createRoom_shape:
  assumes "on_createRoom rooms sid tape = Returned rooms' out"
  shows "rooms' = rooms \<or> (\<exists>c. generateRoomCode rooms tape = Some c \<and> \<not> rooms_has rooms c
           \<and> findPlayerRoom rooms sid = None \<and> rooms' = rooms @ [fresh_room c sid])"
proof (cases "findPlayerRoom rooms sid")
  case (Some i)
  with assms show ?thesis by (simp add: on_createRoom_def reject_def)
next
  case None
  with assms obtain c where c: "generateRoomCode rooms tape = Some c"
    by (auto simp: on_createRoom_def createRoom_def split: option.splits)
  then have fresh: "\<not> rooms_has rooms c" by (rule generateRoomCode_fresh)
  with assms None c have "rooms' = rooms @ [fresh_room c sid]"
    by (simp add: on_createRoom_def createRoom_def rooms_set_def fresh_room_def Let_def)
  with None c fresh show ?thesis by blast
qed

lemma newGame_shape:
  assumes "on_newGame rooms sid = Returned rooms' out"
  shows "rooms' = rooms \<or> (\<exists>i. i < length rooms \<and> rooms' = rooms[i := resetGame (rooms ! i)])"
proof (cases "findPlayerRoom rooms sid")
  case None
  with assms show ?thesis by (simp add: on_newGame_def reject_def)
next
  case (Some i)
  with assms findPlayerRoom_less [OF Some] show ?thesis
    by (auto simp: on_newGame_def reject_def Let_def split: if_splits)
qed

lemma disconnect_shape:
  assumes "on_disconnect rooms sid = Returned rooms' out"
  shows "rooms' = rooms \<or> (\<exists>i. i < length rooms \<and> findPlayerRoom rooms sid = Some i
           \<and> rooms' = (if players (left (rooms ! i) sid) = []
                        then rooms_delete (rooms[i := left (rooms ! i) sid]) (code (rooms ! i))
                        else rooms[i := left (rooms ! i) sid]))"
proof (cases "findPlayerRoom rooms sid")
  case None
  with assms show ?thesis by (simp add: on_disconnect_def)
next
  case (Some i)
  with assms have "rooms' = (if players (left (rooms ! i) sid) = []
                        then rooms_delete (rooms[i := left (rooms ! i) sid]) (code (rooms ! i))
                        else rooms[i := left (rooms ! i) sid])"
    by (auto simp: on_disconnect_def left_def Let_def split: if_splits)
  with Some findPlayerRoom_less [OF Some] show ?thesis by blast
qed

lemma makeMove_shape:
  assumes "on_makeMove rooms sid data = Returned rooms' out"
  shows "rooms' = rooms \<or> (\<exists>i k m r. i < length rooms \<and> rooms' = rooms[i := r]
           \<and> board (rooms ! i) ! k = None \<and> board r = (board (rooms ! i))[k := Some m]
           \<and> code r = code (rooms ! i) \<and> players r = players (rooms ! i))"
proof (cases "is_error_reply out")
  case False
  from makeMove_accepted [OF assms False] show ?thesis by blast
next
  case True
  with assms show ?thesis
    by (auto simp: on_makeMove_def reject_def Let_def split: option.splits eval.splits if_splits)
qed

lemma joinRoom_accepted:
  assumes "on_joinRoom rooms sid data = Returned rooms' out" and "\<not> is_error_reply out"
  shows "\<exists>i c. getProp data ''roomCode'' = Val (JStr c) \<and> length c = 6
          \<and> getRoom rooms (toUpperCase c) = Some i \<and> i < length rooms
          \<and> length (players (rooms ! i)) < 2 \<and> findPlayerRoom rooms sid = None
          \<and> rooms' = rooms[i := joined (rooms ! i) sid]
          \<and> out = [JoinChannel sid (code (rooms ! i)),
                    ToSocket sid (JoinedRoom (code (rooms ! i)) MarkO),
                    ToRoom (code (rooms ! i))
                      (GameStart (board (rooms ! i)) (currentPlayer (rooms ! i)) GameStarted)]"
proof -
  from assms obtain v where v: "getProp data ''roomCode'' = Val v"
    by (auto simp: on_joinRoom_def split: eval.splits)
  with assms obtain u where u: "optToUpperCase v = Val (Some u)"
    by (auto simp: on_joinRoom_def reject_def split: eval.splits option.splits)
  then obtain c where c: "v = JStr c" "u = toUpperCase c"
    by (cases v) auto
  from assms v u have len: "u \<noteq> []" "length u = 6"
    by (auto simp: on_joinRoom_def reject_def split: if_splits)
  with assms v u obtain i where i: "getRoom rooms u = Some i"
    by (auto simp: on_joinRoom_def reject_def split: option.splits)
  with assms v u len have few: "length (players (rooms ! i)) < 2"
    by (auto simp: on_joinRoom_def reject_def split: if_splits)
  with assms v u len i have none: "findPlayerRoom rooms sid = None"
    by (auto simp: on_joinRoom_def reject_def split: option.splits)
  with assms(1) v u len i few have "rooms' = rooms[i := joined (rooms ! i) sid]"
    "out = [JoinChannel sid (code (rooms ! i)),
                    ToSocket sid (JoinedRoom (code (rooms ! i)) MarkO),
                    ToRoom (code (rooms ! i))
                      (GameStart (board (rooms ! i)) (currentPlayer (rooms ! i)) GameStarted)]"
    by (auto simp: on_joinRoom_def joined_def)
  with v c len i getRoom_less [OF i] few none show ?thesis
    by (auto simp: toUpperCase_length)
qed

lemma joinRoom_shape:
  assumes "on_joinRoom rooms sid data = Returned rooms' out"
  shows "rooms' = rooms \<or> (\<exists>i. i < length rooms \<and> findPlayerRoom rooms sid = None
           \<and> length (players (rooms ! i)) < 2 \<and> rooms' = rooms[i := joined (rooms ! i) sid])"
proof (cases "is_error_reply out")
  case True
  with assms show ?thesis
    by (auto simp: on_joinRoom_def reject_def Let_def split: eval.splits option.splits if_splits)
next
  case False
  from joinRoom_accepted [OF assms False] show ?thesis by blast
qed

section \<open>Cells and turns\<close>

lemma update_kept:
  assumes d: "distinct (map code rooms)" and i: "i < length rooms"
    and c: "code y = code (rooms ! i)" and k: "cells_kept (rooms ! i) y"
    and r: "r \<in> set rooms" and r': "r' \<in> set (rooms[i := y])" and same: "code r' = code r"
  shows "cells_kept r r'"
proof -
  from in_set_update [OF r'] consider "r' = y" | j where "j < length rooms" "j \<noteq> i" "r' = rooms ! j"
    by blast
  then show ?thesis
  proof cases
    case 1
    with c same have "code (rooms ! i) = code r" by simp
    with d i r have "rooms ! i = r" using same_code_same_room [of rooms r "rooms ! i"] by simp
    with k 1 show ?thesis by simp
  next
    case 2
    then have "r' \<in> set rooms" by simp
    with d r same have "r' = r" using same_code_same_room [of rooms r r'] by simp
    then show ?thesis by (simp add: cells_kept_def)
  qed
qed

lemma kept_refl: "cells_kept r r"
  by (simp add: cells_kept_def)

lemma board_monotone:
  assumes d: "distinct (map code rooms)" and ev: "ev \<noteq> NewGame"
    and h: "handle rooms sid ev = Returned rooms' out"
    and r: "r \<in> set rooms" and r': "r' \<in> set rooms'" and same: "code r' = code r"
  shows "cells_kept r r'"
proof -
  have unchanged: ?thesis if "rooms' = rooms"
    using that d r r' same same_code_same_room [of rooms r r'] by (simp add: kept_refl)
  have updated: ?thesis
    if "i < length rooms" "r' \<in> set (rooms[i := y])" "code y = code (rooms ! i)"
      "cells_kept (rooms ! i) y" for i y
    using that d r same update_kept [of rooms i y r r'] by simp
  show ?thesis
  proof (cases ev)
    case (CreateRoom tape)
    with h createRoom_shape [of rooms sid tape rooms' out]
    consider "rooms' = rooms" | c where "\<not> rooms_has rooms c" "rooms' = rooms @ [fresh_room c sid]"
      by auto
    then show ?thesis
    proof cases
      case 1
      then show ?thesis by (rule unchanged)
    next
      case 2
      with r same have "r' \<noteq> fresh_room c sid" by (auto simp: rooms_has_def fresh_room_def)
      with 2 r' have "r' \<in> set rooms" by simp
      with d r same have "r' = r" using same_code_same_room [of rooms r r'] by simp
      then show ?thesis by (simp add: kept_refl)
    qed
  next
    case (JoinRoom data)
    with h joinRoom_shape [of rooms sid data rooms' out]
    consider "rooms' = rooms" | i where "i < length rooms" "rooms' = rooms[i := joined (rooms ! i) sid]"
      by auto
    then show ?thesis
    proof cases
      case 1
      then show ?thesis by (rule unchanged)
    next
      case 2
      with r' show ?thesis
        using updated [of i "joined (rooms ! i) sid"] by (simp add: joined_def cells_kept_def)
    qed
  next
    case (MakeMove data)
    with h makeMove_shape [of rooms sid data rooms' out]
    consider "rooms' = rooms" | i k m y where "i < length rooms" "rooms' = rooms[i := y]"
      "board (rooms ! i) ! k = None" "board y = (board (rooms ! i))[k := Some m]"
      "code y = code (rooms ! i)"
      by auto
    then show ?thesis
    proof cases
      case 1
      then show ?thesis by (rule unchanged)
    next
      case 2
      have "cells_kept (rooms ! i) y"
        unfolding cells_kept_def using 2(3,4) by (metis nth_list_update_neq)
      with 2 r' show ?thesis using updated [of i y] by simp
    qed
  next
    case NewGame
    with ev show ?thesis by simp
  next
    case Disconnect
    with h disconnect_shape [of rooms sid rooms' out]
    consider "rooms' = rooms" | i where "i < length rooms"
      "rooms' = (if players (left (rooms ! i) sid) = []
                        then rooms_delete (rooms[i := left (rooms ! i) sid]) (code (rooms ! i))
                        else rooms[i := left (rooms ! i) sid])"
      by auto
    then show ?thesis
    proof cases
      case 1
      then show ?thesis by (rule unchanged)
    next
      case 2
      with r' have "r' \<in> set (rooms[i := left (rooms ! i) sid])"
        by (auto simp: rooms_delete_def split: if_splits)
      with 2 show ?thesis
        using updated [of i "left (rooms ! i) sid"] by (simp add: left_def cells_kept_def)
    qed
  qed
qed

lemma turns_alternate:
  assumes "acceptedMoves rooms ms = Some rooms'"
    and "\<forall>(sid, data)\<in>set ms. findPlayerRoom rooms sid = Some i"
  shows "currentPlayer (rooms' ! i) =
           (if even (length ms) then currentPlayer (rooms ! i) else other (currentPlayer (rooms ! i)))"
  using assms
proof (induction ms arbitrary: rooms)
  case Nil
  then show ?case by simp
next
  case (Cons mv ms)
  obtain sid data where mv: "mv = (sid, data)" by (cases mv) auto
  with Cons.prems(1) obtain mid out where mid: "on_makeMove rooms sid data = Returned mid out"
    "\<not> is_error_reply out" "acceptedMoves mid ms = Some rooms'"
    by (auto split: result.splits if_splits)
  from Cons.prems(2) mv have here: "findPlayerRoom rooms sid = Some i" by simp
  from makeMove_accepted [OF mid(1) mid(2)] here
  obtain r where r: "i < length rooms" "mid = rooms[i := r]"
    "currentPlayer r = other (currentPlayer (rooms ! i))" "players r = players (rooms ! i)"
    by (auto simp: other_def)
  then have "map players mid = map players rooms" by (simp add: map_update_same)
  then have same: "findPlayerRoom mid s = findPlayerRoom rooms s" for s
    by (rule findPlayerRoom_players)
  with Cons.prems(2) have "\<forall>(sid, data)\<in>set ms. findPlayerRoom mid sid = Some i" by auto
  with mid(3) have "currentPlayer (rooms' ! i) =
           (if even (length ms) then currentPlayer (mid ! i) else other (currentPlayer (mid ! i)))"
    by (rule Cons.IH)
  moreover from r have "currentPlayer (mid ! i) = other (currentPlayer (rooms ! i))" by simp
  moreover have "other (other m) = m" for m by (cases m) (simp_all add: other_def)
  ultimately show ?case by simp
qed

section \<open>Invariants of the reachable states\<close>

lemma step_codes_unique:
  assumes inv: "codes_unique rooms" and h: "handle rooms sid ev = Returned rooms' out"
  shows "codes_unique rooms'"
proof -
  have updated: "codes_unique (rooms[i := y])" if "i < length rooms" "code y = code (rooms ! i)" for i y
    using that inv by (simp add: codes_unique_def map_update_same)
  show ?thesis
  proof (cases ev)
    case (CreateRoom tape)
    with h createRoom_shape [of rooms sid tape rooms' out] inv show ?thesis
      by (auto simp: codes_unique_def rooms_has_def fresh_room_def)
  next
    case (JoinRoom data)
    with h joinRoom_shape [of rooms sid data rooms' out] inv updated show ?thesis
      by (auto simp: joined_def)
  next
    case (MakeMove data)
    with h makeMove_shape [of rooms sid data rooms' out] inv updated show ?thesis
      by auto
  next
    case NewGame
    with h newGame_shape [of rooms sid rooms' out] inv updated show ?thesis
      by (auto simp: resetGame_def)
  next
    case Disconnect
    with h disconnect_shape [of rooms sid rooms' out]
    consider "rooms' = rooms" | i where "i < length rooms"
      "rooms' = (if players (left (rooms ! i) sid) = []
                        then rooms_delete (rooms[i := left (rooms ! i) sid]) (code (rooms ! i))
                        else rooms[i := left (rooms ! i) sid])"
      by auto
    then show ?thesis
    proof cases
      case 1
      with inv show ?thesis by simp
    next
      case 2
      have "codes_unique (rooms[i := left (rooms ! i) sid])"
        using updated [of i "left (rooms ! i) sid"] 2(1) by (simp add: left_def)
      with 2(2) show ?thesis
        by (simp add: codes_unique_def rooms_delete_def distinct_map_filter)
    qed
  qed
qed


lemma reachable_codes_unique: "reachable rooms \<Longrightarrow> codes_unique rooms"
proof (induction rule: reachable.induct)
  case initial
  show ?case by (simp add: codes_unique_def)
next
  case (step rooms sid ev rooms' out)
  from step.IH step.hyps(2) show ?case by (rule step_codes_unique)
qed


lemma run_reachable: "reachable rooms \<Longrightarrow> run rooms evs = Some rooms' \<Longrightarrow> reachable rooms'"
proof (induction evs arbitrary: rooms)
  case Nil
  then show ?case by simp
next
  case (Cons e evs)
  obtain sid ev where e: "e = (sid, ev)" by (cases e) auto
  with Cons.prems(2) obtain mid out where mid: "handle rooms sid ev = Returned mid out"
    "run mid evs = Some rooms'"
    by (auto split: result.splits)
  from Cons.prems(1) mid(1) have "reachable mid" by (rule reachable.step)
  then show ?case using mid(2) by (rule Cons.IH)
qed

section \<open>The move handler\<close>

text \<open>
  Claim C2. A \<open>makeMove\<close> request with a \<open>cellIndex\<close> is rejected with NotInSession
  when the requester is in no room; else with GameNotActive when the room's game is
  not active; else with NotYourTurn when the requester's symbol is not the room's
  \<open>currentPlayer\<close>; else with InvalidMove when \<open>cellIndex\<close> is below 0, above 8, or
  names an occupied cell. Each rejection leaves the map of rooms as it was and sends
  one \<open>error\<close> message, to the requesting socket.
\<close>

theorem makeMove_rejections:
  assumes "getProp data ''cellIndex'' = Val (JNum n)"
  shows "(findPlayerRoom rooms sid = None \<longrightarrow>
            on_makeMove rooms sid data = Returned rooms [ToSocket sid (ErrorMsg NotInSession)])
       \<and> (\<forall>i. findPlayerRoom rooms sid = Some i \<and> \<not> gameActive (rooms ! i) \<longrightarrow>
            on_makeMove rooms sid data = Returned rooms [ToSocket sid (ErrorMsg GameNotActive)])
       \<and> (\<forall>i. findPlayerRoom rooms sid = Some i \<and> gameActive (rooms ! i)
              \<and> map_of (symbols (rooms ! i)) sid \<noteq> Some (currentPlayer (rooms ! i)) \<longrightarrow>
            on_makeMove rooms sid data = Returned rooms [ToSocket sid (ErrorMsg NotYourTurn)])
       \<and> (\<forall>i. findPlayerRoom rooms sid = Some i \<and> gameActive (rooms ! i)
              \<and> map_of (symbols (rooms ! i)) sid = Some (currentPlayer (rooms ! i))
              \<and> (n < 0 \<or> n > 8 \<or> (\<exists>m. board (rooms ! i) ! nat n = Some m)) \<longrightarrow>
            on_makeMove rooms sid data = Returned rooms [ToSocket sid (ErrorMsg InvalidMove)])"
  using assms
  by (auto simp: on_makeMove_def reject_def validCell_def split: option.splits)

theorem makeMove_rejections_witness:
  "getProp (cellIndexOf 9) ''cellIndex'' = Val (JNum 9)
   \<and> on_makeMove state_playing ''c'' (cellIndexOf 9)
       = Returned state_playing [ToSocket ''c'' (ErrorMsg NotInSession)]
   \<and> on_makeMove state_waiting ''a'' (cellIndexOf 9)
       = Returned state_waiting [ToSocket ''a'' (ErrorMsg GameNotActive)]
   \<and> on_makeMove state_playing ''b'' (cellIndexOf 9)
       = Returned state_playing [ToSocket ''b'' (ErrorMsg NotYourTurn)]
   \<and> on_makeMove state_playing ''a'' (cellIndexOf 9)
       = Returned state_playing [ToSocket ''a'' (ErrorMsg InvalidMove)]
   \<and> on_makeMove state_moved ''b'' (cellIndexOf 0)
       = Returned state_moved [ToSocket ''b'' (ErrorMsg InvalidMove)]"
proof -
  have p9: "getProp (cellIndexOf 9) ''cellIndex'' = Val (JNum 9)"
    and p0: "getProp (cellIndexOf 0) ''cellIndex'' = Val (JNum 0)"
    by (simp_all add: cellIndexOf_def)
  have "findPlayerRoom state_playing ''c'' = None"
    by code_simp
  with makeMove_rejections [OF p9, of state_playing "''c''"]
  have r1: "on_makeMove state_playing ''c'' (cellIndexOf 9)
       = Returned state_playing [ToSocket ''c'' (ErrorMsg NotInSession)]"
    by blast
  have "findPlayerRoom state_waiting ''a'' = Some 0 \<and> \<not> gameActive (state_waiting ! 0)"
    by code_simp
  with makeMove_rejections [OF p9, of state_waiting "''a''"]
  have r2: "on_makeMove state_waiting ''a'' (cellIndexOf 9)
       = Returned state_waiting [ToSocket ''a'' (ErrorMsg GameNotActive)]"
    by blast
  have "findPlayerRoom state_playing ''b'' = Some 0 \<and> gameActive (state_playing ! 0)
      \<and> map_of (symbols (state_playing ! 0)) ''b'' \<noteq> Some (currentPlayer (state_playing ! 0))"
    by code_simp
  with makeMove_rejections [OF p9, of state_playing "''b''"]
  have r3: "on_makeMove state_playing ''b'' (cellIndexOf 9)
       = Returned state_playing [ToSocket ''b'' (ErrorMsg NotYourTurn)]"
    by blast
  have "findPlayerRoom state_playing ''a'' = Some 0 \<and> gameActive (state_playing ! 0)
      \<and> map_of (symbols (state_playing ! 0)) ''a'' = Some (currentPlayer (state_playing ! 0))"
    by code_simp
  moreover have "(9::int) > 8" by simp
  ultimately have r4: "on_makeMove state_playing ''a'' (cellIndexOf 9)
       = Returned state_playing [ToSocket ''a'' (ErrorMsg InvalidMove)]"
    using makeMove_rejections [OF p9, of state_playing "''a''"] by blast
  have "findPlayerRoom state_moved ''b'' = Some 0 \<and> gameActive (state_moved ! 0)
      \<and> map_of (symbols (state_moved ! 0)) ''b'' = Some (currentPlayer (state_moved ! 0))"
    by code_simp
  moreover have "\<exists>m. board (state_moved ! 0) ! nat 0 = Some m"
    by (simp add: state_moved_def board_first_def)
  ultimately have r5: "on_makeMove state_moved ''b'' (cellIndexOf 0)
       = Returned state_moved [ToSocket ''b'' (ErrorMsg InvalidMove)]"
    using makeMove_rejections [OF p0, of state_moved "''b''"] by blast
  from p9 r1 r2 r3 r4 r5 show ?thesis by simp
qed

text \<open>
  Claim C3. A move is accepted exactly when it passes the four checks: the requester
  is a player of a room whose game is active, its symbol is the room's
  \<open>currentPlayer\<close>, and \<open>cellIndex\<close> names one of the cells 0 to 8, which is empty.
  Such a move returns with a broadcast and no error, and every accepted move was
  such a one. An accepted move writes the requester's symbol into the empty cell that
  \<open>cellIndex\<close> names and sets \<open>currentPlayer\<close> to the other symbol, which is not the one
  that just moved. Over any sequence of accepted moves by the players of one room
  \<open>currentPlayer\<close> alternates: after an even number of moves it is the symbol it was,
  after an odd number the other one. And no handler but \<open>newGame\<close> changes an occupied
  cell of a room that stays in the map (the codes of the map being distinct, as they
  are in a Map).
\<close>

theorem makeMove_turn_and_cells:
  "(\<forall>sid data i v m k.
      findPlayerRoom rooms sid = Some i \<and> gameActive (rooms ! i)
      \<and> getProp data ''cellIndex'' = Val v
      \<and> map_of (symbols (rooms ! i)) sid = Some m \<and> m = currentPlayer (rooms ! i)
      \<and> arrayIndex v = Some (int k) \<and> k \<le> 8 \<and> k < length (board (rooms ! i))
      \<and> board (rooms ! i) ! k = None \<longrightarrow>
      on_makeMove rooms sid data =
        (if checkWinner ((board (rooms ! i))[k := Some m]) = InProgress
         then Returned (rooms[i := (rooms ! i)\<lparr> board := (board (rooms ! i))[k := Some m],
                                    currentPlayer := other m \<rparr>])
                [ToRoom (code (rooms ! i))
                   (MoveMade ((board (rooms ! i))[k := Some m]) (other m) v m)]
         else Returned (rooms[i := (rooms ! i)\<lparr> board := (board (rooms ! i))[k := Some m],
                                    currentPlayer := other m, gameActive := False \<rparr>])
                [ToRoom (code (rooms ! i))
                   (GameEnd ((board (rooms ! i))[k := Some m])
                      (checkWinner ((board (rooms ! i))[k := Some m]))
                      (gameEndMessage (checkWinner ((board (rooms ! i))[k := Some m]))))]))
 \<and> (\<forall>sid data rooms' out.
      on_makeMove rooms sid data = Returned rooms' out \<and> \<not> is_error_reply out \<longrightarrow>
      (\<exists>i k m v r. findPlayerRoom rooms sid = Some i \<and> i < length rooms
          \<and> gameActive (rooms ! i)
          \<and> map_of (symbols (rooms ! i)) sid = Some m \<and> currentPlayer (rooms ! i) = m
          \<and> getProp data ''cellIndex'' = Val v \<and> arrayIndex v = Some (int k)
          \<and> k < 9 \<and> k < length (board (rooms ! i)) \<and> board (rooms ! i) ! k = None
          \<and> rooms' = rooms[i := r]
          \<and> board r = (board (rooms ! i))[k := Some m]
          \<and> currentPlayer r = other m \<and> currentPlayer r \<noteq> m
          \<and> code r = code (rooms ! i) \<and> players r = players (rooms ! i)
          \<and> symbols r = symbols (rooms ! i)))
 \<and> (\<forall>ms rooms' i.
      acceptedMoves rooms ms = Some rooms'
      \<and> (\<forall>(sid, data)\<in>set ms. findPlayerRoom rooms sid = Some i) \<longrightarrow>
      currentPlayer (rooms' ! i) =
        (if even (length ms) then currentPlayer (rooms ! i)
         else other (currentPlayer (rooms ! i))))
 \<and> (\<forall>sid ev rooms' out r r'.
      distinct (map code rooms) \<and> ev \<noteq> NewGame
      \<and> handle rooms sid ev = Returned rooms' out
      \<and> r \<in> set rooms \<and> r' \<in> set rooms' \<and> code r' = code r \<longrightarrow>
      cells_kept r r')"
proof (intro conjI allI impI)
  fix sid data i v m k
  assume "findPlayerRoom rooms sid = Some i \<and> gameActive (rooms ! i)
      \<and> getProp data ''cellIndex'' = Val v
      \<and> map_of (symbols (rooms ! i)) sid = Some m \<and> m = currentPlayer (rooms ! i)
      \<and> arrayIndex v = Some (int k) \<and> k \<le> 8 \<and> k < length (board (rooms ! i))
      \<and> board (rooms ! i) ! k = None"
  then have "findPlayerRoom rooms sid = Some i" "gameActive (rooms ! i)"
    "getProp data ''cellIndex'' = Val v"
    "map_of (symbols (rooms ! i)) sid = Some m" "m = currentPlayer (rooms ! i)"
    "arrayIndex v = Some (int k)" "k \<le> 8" "k < length (board (rooms ! i))"
    "board (rooms ! i) ! k = None"
    by simp_all
  then show "on_makeMove rooms sid data =
        (if checkWinner ((board (rooms ! i))[k := Some m]) = InProgress
         then Returned (rooms[i := (rooms ! i)\<lparr> board := (board (rooms ! i))[k := Some m],
                                    currentPlayer := other m \<rparr>])
                [ToRoom (code (rooms ! i))
                   (MoveMade ((board (rooms ! i))[k := Some m]) (other m) v m)]
         else Returned (rooms[i := (rooms ! i)\<lparr> board := (board (rooms ! i))[k := Some m],
                                    currentPlayer := other m, gameActive := False \<rparr>])
                [ToRoom (code (rooms ! i))
                   (GameEnd ((board (rooms ! i))[k := Some m])
                      (checkWinner ((board (rooms ! i))[k := Some m]))
                      (gameEndMessage (checkWinner ((board (rooms ! i))[k := Some m]))))])"
    by (rule makeMove_applied)
next
  fix sid data rooms' out
  assume "on_makeMove rooms sid data = Returned rooms' out \<and> \<not> is_error_reply out"
  then have "on_makeMove rooms sid data = Returned rooms' out" "\<not> is_error_reply out"
    by simp_all
  from makeMove_accepted [OF this]
  show "\<exists>i k m v r. findPlayerRoom rooms sid = Some i \<and> i < length rooms
          \<and> gameActive (rooms ! i)
          \<and> map_of (symbols (rooms ! i)) sid = Some m \<and> currentPlayer (rooms ! i) = m
          \<and> getProp data ''cellIndex'' = Val v \<and> arrayIndex v = Some (int k)
          \<and> k < 9 \<and> k < length (board (rooms ! i)) \<and> board (rooms ! i) ! k = None
          \<and> rooms' = rooms[i := r]
          \<and> board r = (board (rooms ! i))[k := Some m]
          \<and> currentPlayer r = other m \<and> currentPlayer r \<noteq> m
          \<and> code r = code (rooms ! i) \<and> players r = players (rooms ! i)
          \<and> symbols r = symbols (rooms ! i)"
    by metis
next
  fix ms rooms' i
  assume "acceptedMoves rooms ms = Some rooms'
      \<and> (\<forall>(sid, data)\<in>set ms. findPlayerRoom rooms sid = Some i)"
  then show "currentPlayer (rooms' ! i) =
        (if even (length ms) then currentPlayer (rooms ! i)
         else other (currentPlayer (rooms ! i)))"
    using turns_alternate [of rooms ms rooms' i] by blast
next
  fix sid ev rooms' out r r'
  assume "distinct (map code rooms) \<and> ev \<noteq> NewGame
      \<and> handle rooms sid ev = Returned rooms' out
      \<and> r \<in> set rooms \<and> r' \<in> set rooms' \<and> code r' = code r"
  then show "cells_kept r r'"
    using board_monotone [of rooms ev sid rooms' out r r'] by blast
qed

theorem makeMove_turn_and_cells_witness:
  "on_makeMove state_playing ''a'' (cellIndexOf 0)
     = Returned state_moved [ToRoom ''ABCDEF'' (MoveMade board_first MarkO (JNum 0) MarkX)]
   \<and> acceptedMoves state_playing moves_three = Some state_three
   \<and> currentPlayer (state_playing ! 0) = MarkX
   \<and> currentPlayer (state_three ! 0) = MarkO
   \<and> handle state_moved ''b'' (MakeMove (cellIndexOf 3))
       = Returned state_two [ToRoom ''ABCDEF'' (MoveMade board_second MarkX (JNum 3) MarkO)]
   \<and> cells_kept (state_moved ! 0) (state_two ! 0)"
proof -
  have passes: "findPlayerRoom state_playing ''a'' = Some 0 \<and> gameActive (state_playing ! 0)
      \<and> getProp (cellIndexOf 0) ''cellIndex'' = Val (JNum 0)
      \<and> map_of (symbols (state_playing ! 0)) ''a'' = Some MarkX
      \<and> MarkX = currentPlayer (state_playing ! 0)
      \<and> arrayIndex (JNum 0) = Some (int 0) \<and> (0::nat) \<le> 8
      \<and> 0 < length (board (state_playing ! 0))
      \<and> board (state_playing ! 0) ! 0 = None"
    by code_simp
  note applied = makeMove_turn_and_cells [of state_playing, THEN conjunct1, rule_format,
      OF passes]
  have first: "on_makeMove state_playing ''a'' (cellIndexOf 0)
     = Returned state_moved [ToRoom ''ABCDEF'' (MoveMade board_first MarkO (JNum 0) MarkX)]"
    unfolding applied by code_simp
  have three: "acceptedMoves state_playing moves_three = Some state_three"
    by code_simp
  have movers: "\<forall>(sid, data)\<in>set moves_three. findPlayerRoom state_playing sid = Some 0"
    by code_simp
  have start: "currentPlayer (state_playing ! 0) = MarkX"
    by (simp add: state_playing_def)
  have "currentPlayer (state_three ! 0) =
        (if even (length moves_three) then currentPlayer (state_playing ! 0)
         else other (currentPlayer (state_playing ! 0)))"
    using makeMove_turn_and_cells [of state_playing, THEN conjunct2, THEN conjunct2,
        THEN conjunct1] three movers by blast
  then have turn: "currentPlayer (state_three ! 0) = MarkO"
    by (simp add: start moves_three_def other_def)
  have second: "handle state_moved ''b'' (MakeMove (cellIndexOf 3))
       = Returned state_two [ToRoom ''ABCDEF'' (MoveMade board_second MarkX (JNum 3) MarkO)]"
    by code_simp
  have "distinct (map code state_moved)" "MakeMove (cellIndexOf 3) \<noteq> NewGame"
    "state_moved ! 0 \<in> set state_moved" "state_two ! 0 \<in> set state_two"
    "code (state_two ! 0) = code (state_moved ! 0)"
    by (simp_all add: state_moved_def state_two_def)
  with second have "cells_kept (state_moved ! 0) (state_two ! 0)"
    using makeMove_turn_and_cells [of state_moved, THEN conjunct2, THEN conjunct2,
        THEN conjunct2] by blast
  with first three start turn second show ?thesis by simp
qed

section \<open>Joining, leaving and restarting\<close>

text \<open>
  Claim C4, evaluated where the code departs from it. Sockets "a" and "b" play in
  room "ABCDEF", "a" moves at cell 0, "b" disconnects, and "c" joins with the code.
  The join returns without an error, and the room it leaves, as the \<open>gameStart\<close> it
  broadcasts, has the mark of "a" on the board and \<open>currentPlayer\<close> 'O': the board is
  not fresh and the turn is not that of marker 'X'.
\<close>

theorem join_after_disconnect_keeps_game:
  "run [] (events_playing @ [(''a'', MakeMove (cellIndexOf 0)), (''b'', Disconnect)])
     = Some state_abandoned
   \<and> on_joinRoom state_abandoned ''c'' (roomCodeOf ''ABCDEF'')
       = Returned state_rejoined
           [JoinChannel ''c'' ''ABCDEF'',
            ToSocket ''c'' (JoinedRoom ''ABCDEF'' MarkO),
            ToRoom ''ABCDEF'' (GameStart board_first MarkO GameStarted)]
   \<and> board (state_rejoined ! 0) = board_first
   \<and> board_first \<noteq> replicate 9 None
   \<and> currentPlayer (state_rejoined ! 0) = MarkO
   \<and> gameActive (state_rejoined ! 0)"
  by code_simp




text \<open>
  Claim C6. A \<open>disconnect\<close> of a socket in no room changes nothing and sends nothing.
  A \<open>disconnect\<close> of a player removes the socket from the room's players, deletes its
  symbol, sets \<open>gameActive\<close> to false and broadcasts \<open>playerDisconnected\<close> to the room's
  channel; when no player is left the room is deleted from the map, no room of the
  map has its code, and a \<open>joinRoom\<close> with that code, in any letter case, is answered
  NotFound.
\<close>

theorem disconnect_behaviour:
  "(findPlayerRoom rooms sid = None \<longrightarrow> on_disconnect rooms sid = Returned rooms [])
 \<and> (\<forall>i. findPlayerRoom rooms sid = Some i \<longrightarrow>
      (\<exists>r rooms'.
         r = (rooms ! i)\<lparr> players := filter (\<lambda>id. id \<noteq> sid) (players (rooms ! i)),
                          symbols := AList.delete sid (symbols (rooms ! i)),
                          gameActive := False \<rparr>
       \<and> on_disconnect rooms sid = Returned rooms' [ToRoom (code (rooms ! i)) PlayerDisconnected]
       \<and> sid \<notin> set (players r) \<and> map_of (symbols r) sid = None \<and> \<not> gameActive r
       \<and> (if players r = [] then
             rooms' = rooms_delete (rooms[i := r]) (code (rooms ! i))
             \<and> \<not> rooms_has rooms' (code (rooms ! i))
             \<and> (\<forall>sid' c. length c = 6 \<and> toUpperCase c = code (rooms ! i) \<longrightarrow>
                  on_joinRoom rooms' sid' (JObj [(''roomCode'', JStr c)])
                    = Returned rooms' [ToSocket sid' (ErrorMsg NotFound)])
           else rooms' = rooms[i := r])))"
proof (intro conjI allI impI)
  assume "findPlayerRoom rooms sid = None"
  then show "on_disconnect rooms sid = Returned rooms []"
    by (simp add: on_disconnect_def)
next
  fix i
  assume found: "findPlayerRoom rooms sid = Some i"
  define r where "r = (rooms ! i)\<lparr> players := filter (\<lambda>id. id \<noteq> sid) (players (rooms ! i)),
                          symbols := AList.delete sid (symbols (rooms ! i)),
                          gameActive := False \<rparr>"
  define rooms' where
    "rooms' = (if players r = [] then rooms_delete (rooms[i := r]) (code (rooms ! i))
               else rooms[i := r])"
  have res: "on_disconnect rooms sid
      = Returned rooms' [ToRoom (code (rooms ! i)) PlayerDisconnected]"
    using found by (simp add: on_disconnect_def Let_def r_def rooms'_def)
  have gone: "sid \<notin> set (players r)" "map_of (symbols r) sid = None" "\<not> gameActive r"
    by (simp_all add: r_def AList.delete_eq map_of_eq_None_iff image_iff)
  have deleted: "players r = [] \<Longrightarrow> rooms_get rooms' (code (rooms ! i)) = None"
    by (simp add: rooms'_def rooms_get_delete)
  have nohas: "players r = [] \<Longrightarrow> \<not> rooms_has rooms' (code (rooms ! i))"
    by (auto simp: rooms'_def rooms_has_def rooms_delete_def)
  have notfound: "on_joinRoom rooms' sid' (JObj [(''roomCode'', JStr c)])
                    = Returned rooms' [ToSocket sid' (ErrorMsg NotFound)]"
    if "players r = []" and "length c = 6" and "toUpperCase c = code (rooms ! i)" for sid' c
  proof -
    have "toUpperCase (toUpperCase c) = code (rooms ! i)"
      using that(3) toUpperCase_idem [of c] by metis
    then have "getRoom rooms' (toUpperCase c) = None"
      using deleted [OF that(1)] by (simp only: getRoom_def)
    moreover have "toUpperCase c \<noteq> []" using that(2) by (auto simp: toUpperCase_def)
    ultimately show ?thesis using that(2)
      by (simp add: on_joinRoom_def reject_def toUpperCase_length)
  qed
  have last: "if players r = [] then
             rooms' = rooms_delete (rooms[i := r]) (code (rooms ! i))
             \<and> \<not> rooms_has rooms' (code (rooms ! i))
             \<and> (\<forall>sid' c. length c = 6 \<and> toUpperCase c = code (rooms ! i) \<longrightarrow>
                  on_joinRoom rooms' sid' (JObj [(''roomCode'', JStr c)])
                    = Returned rooms' [ToSocket sid' (ErrorMsg NotFound)])
           else rooms' = rooms[i := r]"
    using nohas notfound by (simp add: rooms'_def)
  show "\<exists>r rooms'.
         r = (rooms ! i)\<lparr> players := filter (\<lambda>id. id \<noteq> sid) (players (rooms ! i)),
                          symbols := AList.delete sid (symbols (rooms ! i)),
                          gameActive := False \<rparr>
       \<and> on_disconnect rooms sid = Returned rooms' [ToRoom (code (rooms ! i)) PlayerDisconnected]
       \<and> sid \<notin> set (players r) \<and> map_of (symbols r) sid = None \<and> \<not> gameActive r
       \<and> (if players r = [] then
             rooms' = rooms_delete (rooms[i := r]) (code (rooms ! i))
             \<and> \<not> rooms_has rooms' (code (rooms ! i))
             \<and> (\<forall>sid' c. length c = 6 \<and> toUpperCase c = code (rooms ! i) \<longrightarrow>
                  on_joinRoom rooms' sid' (JObj [(''roomCode'', JStr c)])
                    = Returned rooms' [ToSocket sid' (ErrorMsg NotFound)])
           else rooms' = rooms[i := r])"
    using r_def res gone last by blast
qed

theorem disconnect_behaviour_witness:
  "on_disconnect state_waiting ''z'' = Returned state_waiting []
   \<and> on_disconnect state_moved ''b''
       = Returned state_abandoned [ToRoom ''ABCDEF'' PlayerDisconnected]
   \<and> on_disconnect state_waiting ''a'' = Returned [] [ToRoom ''ABCDEF'' PlayerDisconnected]
   \<and> on_joinRoom [] ''c'' (JObj [(''roomCode'', JStr ''abcdef'')])
       = Returned [] [ToSocket ''c'' (ErrorMsg NotFound)]"
proof -
  have "findPlayerRoom state_waiting ''z'' = None"
    by code_simp
  with disconnect_behaviour [of state_waiting "''z''"]
  have noop: "on_disconnect state_waiting ''z'' = Returned state_waiting []"
    by blast
  have stays: "on_disconnect state_moved ''b''
       = Returned state_abandoned [ToRoom ''ABCDEF'' PlayerDisconnected]"
    by code_simp
  have empties: "on_disconnect state_waiting ''a''
       = Returned [] [ToRoom ''ABCDEF'' PlayerDisconnected]"
    by code_simp
  have found: "findPlayerRoom state_waiting ''a'' = Some 0"
    by code_simp
  have nobody: "players ((state_waiting ! 0)\<lparr> players :=
          filter (\<lambda>id. id \<noteq> ''a'') (players (state_waiting ! 0)),
        symbols := AList.delete ''a'' (symbols (state_waiting ! 0)),
        gameActive := False \<rparr>) = []"
    by (simp add: state_waiting_def)
  have named: "length ''abcdef'' = 6 \<and> toUpperCase ''abcdef'' = code (state_waiting ! 0)"
    by code_simp
  from disconnect_behaviour [of state_waiting "''a''"] found obtain r rooms' where
    r: "r = (state_waiting ! 0)\<lparr> players :=
          filter (\<lambda>id. id \<noteq> ''a'') (players (state_waiting ! 0)),
        symbols := AList.delete ''a'' (symbols (state_waiting ! 0)),
        gameActive := False \<rparr>"
    and res: "on_disconnect state_waiting ''a''
        = Returned rooms' [ToRoom (code (state_waiting ! 0)) PlayerDisconnected]"
    and fin: "if players r = [] then
             rooms' = rooms_delete (state_waiting[0 := r]) (code (state_waiting ! 0))
             \<and> \<not> rooms_has rooms' (code (state_waiting ! 0))
             \<and> (\<forall>sid' c. length c = 6 \<and> toUpperCase c = code (state_waiting ! 0) \<longrightarrow>
                  on_joinRoom rooms' sid' (JObj [(''roomCode'', JStr c)])
                    = Returned rooms' [ToSocket sid' (ErrorMsg NotFound)])
           else rooms' = state_waiting[0 := r]"
    by blast
  from r nobody have nob: "players r = []" by simp
  have "\<forall>sid' c. length c = 6 \<and> toUpperCase c = code (state_waiting ! 0) \<longrightarrow>
                  on_joinRoom rooms' sid' (JObj [(''roomCode'', JStr c)])
                    = Returned rooms' [ToSocket sid' (ErrorMsg NotFound)]"
    using fin [unfolded if_P [OF nob]] by blast
  moreover from res empties have "rooms' = []" by simp
  ultimately have "\<forall>sid' c. length c = 6 \<and> toUpperCase c = code (state_waiting ! 0) \<longrightarrow>
                  on_joinRoom [] sid' (JObj [(''roomCode'', JStr c)])
                    = Returned [] [ToSocket sid' (ErrorMsg NotFound)]"
    by simp
  with named have "on_joinRoom [] ''c'' (JObj [(''roomCode'', JStr ''abcdef'')])
       = Returned [] [ToSocket ''c'' (ErrorMsg NotFound)]"
    by blast
  with noop stays empties show ?thesis by simp
qed

text \<open>
  Claim C7. A \<open>newGame\<close> request is rejected with NotInSession when the requester is
  in no room and with InsufficientPlayers when its room has not exactly two players.
  Otherwise the room's board becomes nine empty cells, \<open>currentPlayer\<close> 'X' and
  \<open>gameActive\<close> true, and a \<open>gameStart\<close> with that board and turn is broadcast to the
  room's channel: a message of the fields a successful \<open>joinRoom\<close> broadcasts last.
\<close>

theorem newGame_behaviour:
  "(findPlayerRoom rooms sid = None \<longrightarrow>
      on_newGame rooms sid = Returned rooms [ToSocket sid (ErrorMsg NotInSession)])
 \<and> (\<forall>i. findPlayerRoom rooms sid = Some i \<and> length (players (rooms ! i)) \<noteq> 2 \<longrightarrow>
      on_newGame rooms sid = Returned rooms [ToSocket sid (ErrorMsg InsufficientPlayers)])
 \<and> (\<forall>i. findPlayerRoom rooms sid = Some i \<and> length (players (rooms ! i)) = 2 \<longrightarrow>
      on_newGame rooms sid =
        Returned (rooms[i := (rooms ! i)\<lparr> board := replicate 9 None, currentPlayer := MarkX,
                                          gameActive := True \<rparr>])
          [ToRoom (code (rooms ! i)) (GameStart (replicate 9 None) MarkX NewGameStarted)])
 \<and> (\<forall>sid' data rooms' out.
      on_joinRoom rooms sid' data = Returned rooms' out \<and> \<not> is_error_reply out \<longrightarrow>
      (\<exists>c b t. last out = ToRoom c (GameStart b t GameStarted)))"
proof (intro conjI allI impI)
  assume "findPlayerRoom rooms sid = None"
  then show "on_newGame rooms sid = Returned rooms [ToSocket sid (ErrorMsg NotInSession)]"
    by (simp add: on_newGame_def reject_def)
next
  fix i
  assume "findPlayerRoom rooms sid = Some i \<and> length (players (rooms ! i)) \<noteq> 2"
  then show "on_newGame rooms sid
      = Returned rooms [ToSocket sid (ErrorMsg InsufficientPlayers)]"
    by (simp add: on_newGame_def reject_def)
next
  fix i
  assume "findPlayerRoom rooms sid = Some i \<and> length (players (rooms ! i)) = 2"
  then show "on_newGame rooms sid =
        Returned (rooms[i := (rooms ! i)\<lparr> board := replicate 9 None, currentPlayer := MarkX,
                                          gameActive := True \<rparr>])
          [ToRoom (code (rooms ! i)) (GameStart (replicate 9 None) MarkX NewGameStarted)]"
    by (simp add: on_newGame_def resetGame_def Let_def)
next
  fix sid' data rooms' out
  assume "on_joinRoom rooms sid' data = Returned rooms' out \<and> \<not> is_error_reply out"
  then have "on_joinRoom rooms sid' data = Returned rooms' out" "\<not> is_error_reply out"
    by simp_all
  from joinRoom_accepted [OF this] obtain c b t where
    "out = [JoinChannel sid' c, ToSocket sid' (JoinedRoom c MarkO),
            ToRoom c (GameStart b t GameStarted)]"
    by blast
  then show "\<exists>c b t. last out = ToRoom c (GameStart b t GameStarted)"
    by simp
qed

theorem newGame_behaviour_witness:
  "on_newGame state_moved ''c'' = Returned state_moved [ToSocket ''c'' (ErrorMsg NotInSession)]
   \<and> on_newGame state_waiting ''a''
       = Returned state_waiting [ToSocket ''a'' (ErrorMsg InsufficientPlayers)]
   \<and> on_newGame state_moved ''a''
       = Returned state_playing
           [ToRoom ''ABCDEF'' (GameStart (replicate 9 None) MarkX NewGameStarted)]"
proof -
  have "findPlayerRoom state_moved ''c'' = None"
    by code_simp
  with newGame_behaviour [of state_moved "''c''"]
  have r1: "on_newGame state_moved ''c''
      = Returned state_moved [ToSocket ''c'' (ErrorMsg NotInSession)]"
    by blast
  have "findPlayerRoom state_waiting ''a'' = Some 0
      \<and> length (players (state_waiting ! 0)) \<noteq> 2"
    by code_simp
  with newGame_behaviour [of state_waiting "''a''"]
  have r2: "on_newGame state_waiting ''a''
       = Returned state_waiting [ToSocket ''a'' (ErrorMsg InsufficientPlayers)]"
    by blast
  have "findPlayerRoom state_moved ''a'' = Some 0 \<and> length (players (state_moved ! 0)) = 2"
    by code_simp
  with newGame_behaviour [of state_moved "''a''"]
  have "on_newGame state_moved ''a'' =
        Returned (state_moved[0 := (state_moved ! 0)\<lparr> board := replicate 9 None,
                    currentPlayer := MarkX, gameActive := True \<rparr>])
          [ToRoom (code (state_moved ! 0)) (GameStart (replicate 9 None) MarkX NewGameStarted)]"
    by blast
  moreover have "state_moved[0 := (state_moved ! 0)\<lparr> board := replicate 9 None,
                    currentPlayer := MarkX, gameActive := True \<rparr>] = state_playing
      \<and> code (state_moved ! 0) = ''ABCDEF''"
    by code_simp
  ultimately have r3: "on_newGame state_moved ''a''
       = Returned state_playing
           [ToRoom ''ABCDEF'' (GameStart (replicate 9 None) MarkX NewGameStarted)]"
    by simp
  from r1 r2 r3 show ?thesis by simp
qed

section \<open>Room codes\<close>

text \<open>
  Claim C8. A code that \<open>generateRoomCode\<close> returns has 6 characters, each of
  \<open>A-Z0-9\<close>, and is the code of no room of the map (the draws being below 36, as
  \<open>Math.floor(Math.random() * 36)\<close> is); it returns the first code drawn that is
  the code of no room. So the room that \<open>createRoom\<close> adds has a code that no room of
  the map has, and in every state the server reaches from the empty map the codes
  of the rooms are distinct.
\<close>

theorem room_codes_fresh:
  "(\<forall>c. (\<forall>d\<in>set tape. d < 36) \<and> generateRoomCode rooms tape = Some c \<longrightarrow>
      length c = 6 \<and> set c \<subseteq> set chars \<and> c \<notin> set (map code rooms))
 \<and> (\<forall>c rest. drawCode 6 tape [] = Some (c, rest) \<and> c \<notin> set (map code rooms) \<longrightarrow>
      generateRoomCode rooms tape = Some c)
 \<and> (\<forall>sid rooms' out.
      (\<forall>d\<in>set tape. d < 36) \<and> on_createRoom rooms sid tape = Returned rooms' out
      \<and> \<not> is_error_reply out \<longrightarrow>
      (\<exists>c. length c = 6 \<and> set c \<subseteq> set chars \<and> c \<notin> set (map code rooms)
         \<and> rooms' = rooms @ [fresh_room c sid]
         \<and> out = [JoinChannel sid c, ToSocket sid (RoomCreated c MarkX)]))
 \<and> (reachable rooms \<longrightarrow> distinct (map code rooms))"
proof -
  have returned: "\<forall>c. (\<forall>d\<in>set tape. d < 36) \<and> generateRoomCode rooms tape = Some c \<longrightarrow>
      length c = 6 \<and> set c \<subseteq> set chars \<and> c \<notin> set (map code rooms)"
  proof (intro allI impI)
    fix c
    assume h: "(\<forall>d\<in>set tape. d < 36) \<and> generateRoomCode rooms tape = Some c"
    then have "length c = 6 \<and> set c \<subseteq> set chars"
      using generateRoomCode_format [of tape rooms c] by blast
    moreover from h have "\<not> rooms_has rooms c"
      using generateRoomCode_fresh [of rooms tape c] by blast
    ultimately show "length c = 6 \<and> set c \<subseteq> set chars \<and> c \<notin> set (map code rooms)"
      by (simp add: rooms_has_def)
  qed
  have first: "\<forall>c rest. drawCode 6 tape [] = Some (c, rest) \<and> c \<notin> set (map code rooms) \<longrightarrow>
      generateRoomCode rooms tape = Some c"
    by (simp add: generateRoomCode.simps [of rooms tape] rooms_has_def)
  have created: "\<forall>sid rooms' out.
      (\<forall>d\<in>set tape. d < 36) \<and> on_createRoom rooms sid tape = Returned rooms' out
      \<and> \<not> is_error_reply out \<longrightarrow>
      (\<exists>c. length c = 6 \<and> set c \<subseteq> set chars \<and> c \<notin> set (map code rooms)
         \<and> rooms' = rooms @ [fresh_room c sid]
         \<and> out = [JoinChannel sid c, ToSocket sid (RoomCreated c MarkX)])"
  proof (intro allI impI)
    fix sid rooms' out
    assume h: "(\<forall>d\<in>set tape. d < 36) \<and> on_createRoom rooms sid tape = Returned rooms' out
        \<and> \<not> is_error_reply out"
    then have none: "findPlayerRoom rooms sid = None"
      by (cases "findPlayerRoom rooms sid") (auto simp: on_createRoom_def reject_def)
    with h obtain c where c: "generateRoomCode rooms tape = Some c"
      by (auto simp: on_createRoom_def createRoom_def split: option.splits)
    with h have format: "length c = 6 \<and> set c \<subseteq> set chars"
      using generateRoomCode_format [of tape rooms c] by blast
    from c have fresh: "\<not> rooms_has rooms c"
      by (rule generateRoomCode_fresh)
    with h none c have "rooms' = rooms @ [fresh_room c sid]"
      "out = [JoinChannel sid c, ToSocket sid (RoomCreated c MarkX)]"
      by (simp_all add: on_createRoom_def createRoom_def rooms_set_def fresh_room_def Let_def)
    with format fresh
    show "\<exists>c. length c = 6 \<and> set c \<subseteq> set chars \<and> c \<notin> set (map code rooms)
           \<and> rooms' = rooms @ [fresh_room c sid]
           \<and> out = [JoinChannel sid c, ToSocket sid (RoomCreated c MarkX)]"
      by (auto simp: rooms_has_def)
  qed
  have always: "reachable rooms \<longrightarrow> distinct (map code rooms)"
    using reachable_codes_unique [of rooms] by (simp add: codes_unique_def)
  from returned first created always show ?thesis
    by (intro conjI)
qed

theorem room_codes_fresh_witness:
  "generateRoomCode state_waiting [0, 1, 2, 3, 4, 5, 1, 1, 1, 1, 1, 1] = Some ''BBBBBB''
   \<and> length ''BBBBBB'' = 6 \<and> set ''BBBBBB'' \<subseteq> set chars
   \<and> ''BBBBBB'' \<notin> set (map code state_waiting)
   \<and> generateRoomCode [] [0, 1, 2, 3, 4, 5] = Some ''ABCDEF''
   \<and> reachable state_playing \<and> distinct (map code state_playing)"
proof -
  have draws: "\<forall>d\<in>set [0, 1, 2, 3, 4, 5, 1, 1, 1, 1, 1, 1 :: nat]. d < 36"
    by simp
  have retry: "generateRoomCode state_waiting [0, 1, 2, 3, 4, 5, 1, 1, 1, 1, 1, 1]
      = Some ''BBBBBB''"
    by code_simp
  with draws have format: "length ''BBBBBB'' = 6 \<and> set ''BBBBBB'' \<subseteq> set chars
      \<and> ''BBBBBB'' \<notin> set (map code state_waiting)"
    using room_codes_fresh [of "[0, 1, 2, 3, 4, 5, 1, 1, 1, 1, 1, 1]" state_waiting] by blast
  have "drawCode 6 [0, 1, 2, 3, 4, 5] [] = Some (''ABCDEF'', [])
      \<and> ''ABCDEF'' \<notin> set (map code [])"
    by code_simp
  then have first: "generateRoomCode [] [0, 1, 2, 3, 4, 5] = Some ''ABCDEF''"
    using room_codes_fresh [of "[0, 1, 2, 3, 4, 5]" "[]"] by blast
  have reach: "reachable state_playing"
    using run_reachable [OF reachable.initial run_playing] .
  then have "distinct (map code state_playing)"
    using room_codes_fresh [of "[]" state_playing] by blast
  with retry format first reach show ?thesis by simp
qed

section \<open>Malformed payloads\<close>

text \<open>
  Claim C9, evaluated where the code departs from it. A \<open>joinRoom\<close> with no payload
  throws at \<open>data.roomCode\<close>, and one whose \<open>roomCode\<close> is a number throws at the call of
  \<open>toUpperCase\<close>; a \<open>makeMove\<close> with no payload, sent by a player of an active room,
  throws at \<open>data.cellIndex\<close>. Nothing catches the TypeError and no \<open>error\<close> message is
  sent. A payload without the field, or with a code that is too short, is answered
  InvalidCode.
\<close>

theorem malformed_payload_throws:
  "on_joinRoom state_waiting ''b'' JUndefined = UncaughtTypeError
   \<and> on_joinRoom state_waiting ''b'' (JObj [(''roomCode'', JNum 123456)]) = UncaughtTypeError
   \<and> on_makeMove state_playing ''a'' JUndefined = UncaughtTypeError
   \<and> on_joinRoom state_waiting ''b'' (JObj [])
       = Returned state_waiting [ToSocket ''b'' (ErrorMsg InvalidCode)]
   \<and> on_joinRoom state_waiting ''b'' (roomCodeOf ''abc'')
       = Returned state_waiting [ToSocket ''b'' (ErrorMsg InvalidCode)]"
  by code_simp

section \<open>A join after a disconnect\<close>

text \<open>
  Claim C10. A \<open>joinRoom\<close> that succeeds appends the joiner to the room's players and
  gives it the symbol 'O', whatever the room has been through: the symbol of every
  other socket, the board and \<open>currentPlayer\<close> are those of before, and the
  \<open>gameStart\<close> broadcast carries that board and turn. A player of the room who holds
  'O' still holds it, so that both players then hold 'O'.
\<close>

theorem join_assigns_MarkO:
  assumes "on_joinRoom rooms sid data = Returned rooms' out" and "\<not> is_error_reply out"
  shows "\<exists>i. i < length rooms \<and> length (players (rooms ! i)) < 2
        \<and> rooms' = rooms[i := joined (rooms ! i) sid]
        \<and> players (rooms' ! i) = players (rooms ! i) @ [sid]
        \<and> map_of (symbols (rooms' ! i)) sid = Some MarkO
        \<and> (\<forall>p. p \<noteq> sid \<longrightarrow>
              map_of (symbols (rooms' ! i)) p = map_of (symbols (rooms ! i)) p)
        \<and> board (rooms' ! i) = board (rooms ! i)
        \<and> currentPlayer (rooms' ! i) = currentPlayer (rooms ! i)
        \<and> (\<forall>p\<in>set (players (rooms ! i)). map_of (symbols (rooms ! i)) p = Some MarkO \<longrightarrow>
              p \<noteq> sid \<and> map_of (symbols (rooms' ! i)) p = Some MarkO
              \<and> map_of (symbols (rooms' ! i)) sid = Some MarkO)
        \<and> out = [JoinChannel sid (code (rooms ! i)),
                  ToSocket sid (JoinedRoom (code (rooms ! i)) MarkO),
                  ToRoom (code (rooms ! i))
                    (GameStart (board (rooms ! i)) (currentPlayer (rooms ! i)) GameStarted)]"
proof -
  from joinRoom_accepted [OF assms] obtain i where i: "i < length rooms"
    and few: "length (players (rooms ! i)) < 2"
    and none: "findPlayerRoom rooms sid = None"
    and rooms': "rooms' = rooms[i := joined (rooms ! i) sid]"
    and out: "out = [JoinChannel sid (code (rooms ! i)),
                  ToSocket sid (JoinedRoom (code (rooms ! i)) MarkO),
                  ToRoom (code (rooms ! i))
                    (GameStart (board (rooms ! i)) (currentPlayer (rooms ! i)) GameStarted)]"
    by blast
  from i rooms' have at: "rooms' ! i = joined (rooms ! i) sid" by simp
  have mine: "map_of (symbols (rooms' ! i)) sid = Some MarkO"
    by (simp add: at joined_def map_of_update_same)
  have others: "map_of (symbols (rooms' ! i)) p = map_of (symbols (rooms ! i)) p"
    if "p \<noteq> sid" for p
    using that by (simp add: at joined_def map_of_update_other)
  have apart: "p \<noteq> sid" if "p \<in> set (players (rooms ! i))" for p
  proof
    assume "p = sid"
    with that i have "sid \<in> set (concat (map players rooms))"
      by (auto intro: bexI [of _ "rooms ! i"])
    with in_no_room [OF none] show False by simp
  qed
  have both: "\<forall>p\<in>set (players (rooms ! i)). map_of (symbols (rooms ! i)) p = Some MarkO \<longrightarrow>
              p \<noteq> sid \<and> map_of (symbols (rooms' ! i)) p = Some MarkO
              \<and> map_of (symbols (rooms' ! i)) sid = Some MarkO"
    using apart others mine by simp
  have fields: "players (rooms' ! i) = players (rooms ! i) @ [sid]"
    "board (rooms' ! i) = board (rooms ! i)"
    "currentPlayer (rooms' ! i) = currentPlayer (rooms ! i)"
    by (simp_all add: at joined_def)
  from i few rooms' fields mine others both out show ?thesis by blast
qed

theorem join_assigns_MarkO_witness:
  "run [] (events_playing @ [(''a'', Disconnect)]) = Some state_creator_left
   \<and> on_joinRoom state_creator_left ''c'' (roomCodeOf ''ABCDEF'')
       = Returned state_both_O
           [JoinChannel ''c'' ''ABCDEF'',
            ToSocket ''c'' (JoinedRoom ''ABCDEF'' MarkO),
            ToRoom ''ABCDEF'' (GameStart board_empty MarkX GameStarted)]
   \<and> players (state_both_O ! 0) = [''b'', ''c'']
   \<and> map_of (symbols (state_both_O ! 0)) ''b'' = Some MarkO
   \<and> map_of (symbols (state_both_O ! 0)) ''c'' = Some MarkO"
proof -
  have join: "on_joinRoom state_creator_left ''c'' (roomCodeOf ''ABCDEF'')
       = Returned state_both_O
           [JoinChannel ''c'' ''ABCDEF'',
            ToSocket ''c'' (JoinedRoom ''ABCDEF'' MarkO),
            ToRoom ''ABCDEF'' (GameStart board_empty MarkX GameStarted)]"
    by code_simp
  have ok: "\<not> is_error_reply [JoinChannel ''c'' ''ABCDEF'',
            ToSocket ''c'' (JoinedRoom ''ABCDEF'' MarkO),
            ToRoom ''ABCDEF'' (GameStart board_empty MarkX GameStarted)]"
    by simp
  from join_assigns_MarkO [OF join ok] obtain i where i: "i < length state_creator_left"
    and mine: "map_of (symbols (state_both_O ! i)) ''c'' = Some MarkO"
    and both: "\<forall>p\<in>set (players (state_creator_left ! i)).
        map_of (symbols (state_creator_left ! i)) p = Some MarkO \<longrightarrow>
          p \<noteq> ''c'' \<and> map_of (symbols (state_both_O ! i)) p = Some MarkO
          \<and> map_of (symbols (state_both_O ! i)) ''c'' = Some MarkO"
    by blast
  from i have i0: "i = 0" by (simp add: state_creator_left_def)
  have "''b'' \<in> set (players (state_creator_left ! 0))
      \<and> map_of (symbols (state_creator_left ! 0)) ''b'' = Some MarkO"
    by (simp add: state_creator_left_def)
  with both i0 have theirs: "map_of (symbols (state_both_O ! 0)) ''b'' = Some MarkO"
    by blast
  have "players (state_both_O ! 0) = [''b'', ''c'']"
    by (simp add: state_both_O_def)
  with run_creator_left join mine i0 theirs show ?thesis by simp
qed

end
